theory Spec2Isabelle
  imports Main
begin

section \<open>JSON values and \<^verbatim>\<open>JSON.stringify\<close>\<close>

text \<open>
  The agent exchanges JSON with the model endpoint and with its tools. A JSON value is
  modelled as a tree; an object is an association list in insertion order, which is the
  order \<^verbatim>\<open>JSON.stringify\<close> writes the properties in. A number is carried as the text that
  its conversion to a string gives (\<^verbatim>\<open>12\<close>, \<^verbatim>\<open>-0.5\<close>, \<^verbatim>\<open>1e+21\<close>), which is what both
  \<^verbatim>\<open>JSON.stringify\<close> and a template literal write for it: the agent never computes with
  the numbers it receives. A string is a list of bytes: the UTF-8 of the text, where a
  surrogate code unit without its partner is written as the three bytes \<open>0xED\<close>,
  \<open>0xA0..0xBF\<close>, \<open>0x80..0xBF\<close>.
\<close>

datatype json =
    JNull
  | JBool bool
  | JNum string
  | JStr string
  | JArr "json list"
  | JObj "(string \<times> json) list"

text \<open>Decimal digits of a natural number and of an integer, as string concatenation writes them.\<close>

fun digits :: "nat \<Rightarrow> string" where
  "digits n = (if n < 10 then [char_of (48 + n)] else digits (n div 10) @ [char_of (48 + n mod 10)])"

declare digits.simps [simp del]

definition show_int :: "int \<Rightarrow> string" where
  "show_int i = (if i < 0 then CHR ''-'' # digits (nat (- i)) else digits (nat i))"

text \<open>Joining strings with a separator: \<^verbatim>\<open>Array.prototype.join\<close>.\<close>

fun join :: "string \<Rightarrow> string list \<Rightarrow> string" where
  "join sep [] = []"
| "join sep [x] = x"
| "join sep (x # y # ys) = x @ sep @ join sep (y # ys)"

text \<open>
  String quoting of \<^verbatim>\<open>JSON.stringify\<close>: the double quote, the backslash and the named
  control characters are escaped; the remaining control characters are written as
  \<^verbatim>\<open>\u00XX\<close> and a lone surrogate as \<^verbatim>\<open>\udXXX\<close>. All other bytes are copied.
\<close>

definition hex_digit :: "nat \<Rightarrow> char" where
  "hex_digit n = (if n < 10 then char_of (48 + n) else char_of (87 + n))"

definition escape_char :: "char \<Rightarrow> string" where
  "escape_char c =
     (if c = CHR 0x22 then [CHR 0x5C, CHR 0x22]
      else if c = CHR 0x5C then [CHR 0x5C, CHR 0x5C]
      else if c = CHR 0x08 then [CHR 0x5C, CHR ''b'']
      else if c = CHR 0x0C then [CHR 0x5C, CHR ''f'']
      else if c = CHR 0x0A then [CHR 0x5C, CHR ''n'']
      else if c = CHR 0x0D then [CHR 0x5C, CHR ''r'']
      else if c = CHR 0x09 then [CHR 0x5C, CHR ''t'']
      else if of_char c < (32 :: nat)
        then [CHR 0x5C, CHR ''u'', CHR ''0'', CHR ''0'',
              hex_digit (of_char c div 16), hex_digit (of_char c mod 16)]
      else [c])"

definition surrogate_escape :: "char \<Rightarrow> char \<Rightarrow> string" where
  "surrogate_escape b c =
     [CHR 0x5C, CHR ''u'', CHR ''d'',
      hex_digit ((of_char b mod 64) div 4),
      hex_digit (((of_char b mod 64) mod 4) * 4 + (of_char c mod 64) div 16),
      hex_digit ((of_char c mod 64) mod 16)]"

fun escape :: "string \<Rightarrow> string" where
  "escape (a # b # c # cs) =
     (if a = CHR 0xED \<and> (160 :: nat) \<le> of_char b then surrogate_escape b c @ escape cs
      else escape_char a @ escape (b # c # cs))"
| "escape (a # cs) = escape_char a @ escape cs"
| "escape [] = []"

definition quote :: "string \<Rightarrow> string" where
  "quote s = [CHR 0x22] @ escape s @ [CHR 0x22]"

text \<open>
  \<^verbatim>\<open>JSON.stringify(value)\<close> and \<^verbatim>\<open>JSON.stringify(value, null, 2)\<close> in one function:
  the flag says whether the two-space indentation is requested, and the second argument is
  the current indentation.
\<close>

fun stringify_at :: "bool \<Rightarrow> string \<Rightarrow> json \<Rightarrow> string" where
  "stringify_at pretty ind JNull = ''null''"
| "stringify_at pretty ind (JBool b) = (if b then ''true'' else ''false'')"
| "stringify_at pretty ind (JNum n) = n"
| "stringify_at pretty ind (JStr s) = quote s"
| "stringify_at pretty ind (JArr xs) =
     (if xs = [] then ''[]''
      else if pretty then
        ''['' @ [CHR 0x0A] @ (ind @ ''  '') @
        join ('','' @ [CHR 0x0A] @ (ind @ ''  '')) (map (stringify_at pretty (ind @ ''  '')) xs) @
        [CHR 0x0A] @ ind @ '']''
      else ''['' @ join '','' (map (stringify_at pretty ind) xs) @ '']'')"
| "stringify_at pretty ind (JObj kvs) =
     (if kvs = [] then ''{}''
      else if pretty then
        ''{'' @ [CHR 0x0A] @ (ind @ ''  '') @
        join ('','' @ [CHR 0x0A] @ (ind @ ''  ''))
          (map (\<lambda>kv. quote (fst kv) @ '': '' @ stringify_at pretty (ind @ ''  '') (snd kv)) kvs) @
        [CHR 0x0A] @ ind @ ''}''
      else ''{'' @ join '','' (map (\<lambda>kv. quote (fst kv) @ '':'' @ stringify_at pretty ind (snd kv)) kvs) @ ''}'')"

definition JSON_stringify :: "json \<Rightarrow> string" where
  "JSON_stringify v = stringify_at False [] v"

definition JSON_stringify_pretty :: "json \<Rightarrow> string" where
  "JSON_stringify_pretty v = stringify_at True [] v"

text \<open>
  An object literal some of whose properties may be \<^verbatim>\<open>undefined\<close>: \<^verbatim>\<open>JSON.stringify\<close>
  leaves those properties out.
\<close>

definition obj :: "(string \<times> json option) list \<Rightarrow> json" where
  "obj kvs = JObj (List.map_filter (\<lambda>kv. map_option (Pair (fst kv)) (snd kv)) kvs)"

text \<open>Property access \<^verbatim>\<open>value.key\<close> on a value that is not null; a missing property is \<^verbatim>\<open>undefined\<close>.\<close>

fun property :: "string \<Rightarrow> json \<Rightarrow> json option" where
  "property k (JObj kvs) = map_of kvs k"
| "property k _ = None"

text \<open>
  Conversion to a string as a template literal does it (\<^verbatim>\<open>`${value}`\<close>), for a value that
  came out of \<^verbatim>\<open>JSON.parse\<close> or is \<^verbatim>\<open>undefined\<close>.
\<close>

fun js_string :: "json \<Rightarrow> string" where
  "js_string JNull = ''null''"
| "js_string (JBool b) = (if b then ''true'' else ''false'')"
| "js_string (JNum n) = n"
| "js_string (JStr s) = s"
| "js_string (JArr xs) = join '','' (map (\<lambda>x. if x = JNull then [] else js_string x) xs)"
| "js_string (JObj kvs) = ''[object Object]''"

definition template :: "json option \<Rightarrow> string" where
  "template v = (case v of None \<Rightarrow> ''undefined'' | Some x \<Rightarrow> js_string x)"

text \<open>
  \<^verbatim>\<open>encodeURIComponent\<close>: every byte that is not an unreserved character becomes
  \<^verbatim>\<open>%XX\<close>; on a string with a lone surrogate the builtin throws a URIError, whose
  message is the \<open>Inl\<close> value.
\<close>

fun lone_surrogate :: "string \<Rightarrow> bool" where
  "lone_surrogate (a # b # cs) =
     ((a = CHR 0xED \<and> (160 :: nat) \<le> of_char b) \<or> lone_surrogate (b # cs))"
| "lone_surrogate _ = False"

definition unreserved :: "char \<Rightarrow> bool" where
  "unreserved c \<longleftrightarrow>
     c \<in> set ''ABCDEFGHIJKLMNOPQRSTUVWXYZabcdefghijklmnopqrstuvwxyz0123456789-_.!~*'()''"

definition HEX_digit :: "nat \<Rightarrow> char" where
  "HEX_digit n = (if n < 10 then char_of (48 + n) else char_of (55 + n))"

definition encodeURIComponent :: "string \<Rightarrow> string + string" where
  "encodeURIComponent s =
     (if lone_surrogate s then Inl ''URI malformed''
      else Inr (concat (map (\<lambda>c. if unreserved c then [c]
                                   else [CHR ''%'', HEX_digit (of_char c div 16),
                                         HEX_digit (of_char c mod 16)]) s)))"

text \<open>A value is falsy in a condition when it is \<^verbatim>\<open>undefined\<close> or the empty string.\<close>

definition falsy :: "string option \<Rightarrow> bool" where
  "falsy v \<longleftrightarrow> (case v of None \<Rightarrow> True | Some s \<Rightarrow> s = [])"

section \<open>Conversation state\<close>

text \<open>
  A tool call as the model sends it: \<^verbatim>\<open>{id, function: {name, arguments}}\<close>, the arguments
  being JSON text that is still to be parsed.
\<close>

record tool_call =
  call_id :: string
  function_name :: string
  function_arguments :: string

text \<open>
  An entry of the global \<^verbatim>\<open>messages\<close> array. A property that an entry does not have
  is \<open>None\<close>; \<^verbatim>\<open>isDisplayOnly\<close> is only ever tested for truth, so a missing flag is
  \<open>False\<close>. \<^verbatim>\<open>tool_calls\<close> is \<open>None\<close> when the property is missing or null and
  \<open>Some []\<close> when it is the empty array, which is truthy.
\<close>

record message =
  role :: string
  name :: "string option"
  content :: "string option"
  tool_calls :: "tool_call list option"
  tool_call_id :: "string option"
  isDisplayOnly :: bool
  toolCallIndex :: "nat option"

definition plain_message :: "string \<Rightarrow> string \<Rightarrow> message" where
  "plain_message r c =
     \<lparr>role = r, name = None, content = Some c, tool_calls = None, tool_call_id = None,
      isDisplayOnly = False, toolCallIndex = None\<rparr>"

text \<open>The two error entries of the submit handler; neither sets \<^verbatim>\<open>isDisplayOnly\<close>.\<close>

definition max_loop_message :: message where
  "max_loop_message =
     (plain_message ''assistant''
        ([CHR 0xE2, CHR 0x9A, CHR 0xA0, CHR 0xEF, CHR 0xB8, CHR 0x8F] @
         '' Agent reached maximum loop limit. The task may not be fully complete.''))
     \<lparr>name := Some ''error''\<rparr>"

definition error_message :: "string \<Rightarrow> message" where
  "error_message err =
     (plain_message ''assistant''
        ([CHR 0xE2, CHR 0x9D, CHR 0x8C] @ '' **Error occurred:**'' @ [CHR 0x0A] @ err))
     \<lparr>name := Some ''error''\<rparr>"

text \<open>The entries that the tool dispatch builds for the call at position \<open>index\<close> of \<open>n\<close> calls.\<close>

definition displayMessage :: "nat \<Rightarrow> nat \<Rightarrow> string \<Rightarrow> json \<Rightarrow> message" where
  "displayMessage index n functionName args =
     \<lparr>role = ''assistant'', name = Some ''tool-call'',
      content = Some ([CHR 0xF0, CHR 0x9F, CHR 0x94, CHR 0xA7] @ '' **Calling tool: '' @ functionName @
                      ''** ('' @ digits (index + 1) @ ''/'' @ digits n @ '')'' @ [CHR 0x0A] @
                      ''```json'' @ [CHR 0x0A] @ JSON_stringify_pretty args @ [CHR 0x0A] @ ''```''),
      tool_calls = None, tool_call_id = None, isDisplayOnly = True, toolCallIndex = Some index\<rparr>"

definition toolResultMessage :: "tool_call \<Rightarrow> string \<Rightarrow> message" where
  "toolResultMessage toolCall result =
     \<lparr>role = ''tool'', name = Some (function_name toolCall), content = Some result,
      tool_calls = None, tool_call_id = Some (call_id toolCall), isDisplayOnly = False,
      toolCallIndex = None\<rparr>"

definition displayResult :: "nat \<Rightarrow> string \<Rightarrow> string \<Rightarrow> message" where
  "displayResult index functionName result =
     \<lparr>role = ''tool'', name = Some functionName, content = Some result,
      tool_calls = None, tool_call_id = None, isDisplayOnly = True, toolCallIndex = Some index\<rparr>"

text \<open>The messages sent to the model: \<^verbatim>\<open>messages.filter(msg => !msg.isDisplayOnly)\<close>.\<close>

definition apiMessages :: "message list \<Rightarrow> message list" where
  "apiMessages msgs = filter (\<lambda>msg. \<not> isDisplayOnly msg) msgs"

section \<open>The environment of one cycle\<close>

text \<open>
  Everything the agent reads from outside is a parameter. A tool invocation is identified by
  its site: the loop index \<open>i\<close> of the iteration and the position of the call in that
  iteration's \<^verbatim>\<open>tool_calls\<close>.
\<close>

type_synonym site = "nat \<times> nat"

text \<open>
  What the model endpoint answers to \<^verbatim>\<open>fetch(`${baseUrl}/chat/completions`)\<close>:
  \<^item> \<open>Call_failed\<close>: \<^verbatim>\<open>fetch\<close>, \<^verbatim>\<open>response.text()\<close> or \<^verbatim>\<open>response.json()\<close> rejected, or
    the body has no \<^verbatim>\<open>choices[0]\<close>; the argument is the \<^verbatim>\<open>error.message\<close>;
  \<^item> \<open>Not_ok\<close>: \<^verbatim>\<open>response.ok\<close> is false; status, status text and body text;
  \<^item> \<open>Reply\<close>: \<^verbatim>\<open>responseData.choices[0].message\<close>, an object;
  \<^item> \<open>No_response\<close>: the request stays pending for ever.
\<close>

datatype model_response =
    Call_failed string
  | Not_ok nat string string
  | Reply message
  | No_response

text \<open>
  What happens when \<^verbatim>\<open>execute_javascript\<close> evaluates the function it builds around the
  code and serialises the outcome:
  \<^item> \<open>Returned v t\<close>: the code resolved to a value; \<open>v\<close> is what \<^verbatim>\<open>JSON.stringify\<close> writes
    for it (\<open>None\<close> when the property is left out) and \<open>t\<close> is \<^verbatim>\<open>typeof result\<close>;
  \<^item> \<open>Threw_error m s\<close>: something was thrown (by the code, by \<^verbatim>\<open>new Function\<close> or by
    \<^verbatim>\<open>JSON.stringify\<close>) and the handler's catch block could read and serialise its
    \<^verbatim>\<open>message\<close> and \<^verbatim>\<open>stack\<close>;
  \<^item> \<open>Catch_raised e\<close>: the handler's catch block itself raised an error, whose message
    reads as \<open>e\<close>; so it is when null or undefined was thrown, reading \<^verbatim>\<open>error.message\<close>
    being a TypeError;
  \<^item> \<open>Catch_raised_unreadable e\<close>: the handler's catch block raised a value whose own
    \<^verbatim>\<open>message\<close> cannot be read or converted to a string, as when the thrown object has a
    \<^verbatim>\<open>message\<close> getter that throws null; \<open>e\<close> is the message of the error that reading it
    raises;
  \<^item> \<open>Stays_pending\<close>: the code returned a promise that never settles;
  \<^item> \<open>Loops_forever\<close>: the code, which runs synchronously inside the call, never returns.
\<close>

datatype js_outcome =
    Returned "json option" string
  | Threw_error "json option" "json option"
  | Catch_raised string
  | Catch_raised_unreadable string
  | Stays_pending
  | Loops_forever

record search_item =
  title :: "json option"
  link :: "json option"
  snippet :: "json option"
  displayLink :: "json option"
  formattedUrl :: "json option"

text \<open>
  The answer of the search API, as far as \<^verbatim>\<open>google_search\<close> reads it. \<open>Search_failed\<close>
  is any error raised inside the \<^verbatim>\<open>try\<close> other than the one for a response that is not
  ok (a rejected \<^verbatim>\<open>fetch\<close> or \<^verbatim>\<open>response.json()\<close>, a body of another shape than the one
  read), with its \<^verbatim>\<open>error.message\<close>; \<open>Search_not_ok\<close> carries status, status text and
  \<^verbatim>\<open>errorData.error?.message\<close>; \<open>Search_pending\<close> is a request that is never answered;
  the cases of \<open>workflow_response\<close> are the same for the workflow endpoint. In \<open>Search_ok\<close>,
  \<open>items\<close> is \<^verbatim>\<open>data.items\<close>, \<open>searchTime\<close> is \<^verbatim>\<open>data.searchInformation?.searchTime\<close> and
  \<open>totalResults\<close> is the number \<^verbatim>\<open>parseInt(data.searchInformation?.totalResults || 0)\<close>,
  \<open>None\<close> for NaN.
\<close>

record search_data =
  items :: "search_item list option"
  searchTime :: "json option"
  totalResults :: "int option"

datatype search_response =
    Search_failed string
  | Search_not_ok nat string "string option"
  | Search_ok search_data
  | Search_pending

datatype workflow_response =
    Workflow_failed string
  | Workflow_not_ok nat string string
  | Workflow_ok json
  | Workflow_pending

text \<open>A network request that a tool makes.\<close>

datatype request =
    GET string
  | POST string "(string \<times> string) list" "string option"

record env =
  JSON_parse :: "string \<Rightarrow> string + json"
  apiKeyInput :: string
  chat_completions :: "nat \<Rightarrow> message list \<Rightarrow> model_response"
  google_cse_key :: "string option"
  google_cse_cx :: "string option"
  aipipe_key :: "string option"
  fetch_search :: "site \<Rightarrow> string \<Rightarrow> search_response"
  fetch_workflow :: "site \<Rightarrow> request \<Rightarrow> workflow_response"
  run_code :: "site \<Rightarrow> string list \<Rightarrow> string \<Rightarrow> js_outcome"
  toISOString :: "site \<Rightarrow> string"
  settles_at :: "site \<Rightarrow> nat"

text \<open>
  \<open>JSON_parse\<close> is the builtin (\<open>Inl\<close> carries the message of the SyntaxError),
  \<open>apiKeyInput\<close> is the value of the model API key input,
  \<open>google_cse_key\<close>, \<open>google_cse_cx\<close> and \<open>aipipe_key\<close> are the \<^verbatim>\<open>?.value\<close> of the sidebar
  inputs, \<open>run_code\<close> is the engine evaluating the function that \<^verbatim>\<open>new Function\<close> makes
  from parameter names and a code string, \<open>toISOString\<close> is the clock read when a tool builds
  its payload, and \<open>settles_at\<close> is the instant at which the awaited handler of a site
  settles, when it settles at all: handlers that are pending together resume in the order of
  these instants. The sidebar inputs are taken as they are when the cycle starts.
\<close>

section \<open>Tool handlers\<close>

text \<open>
  A handler is an async function: the model gives the requests it starts and either the
  string it resolves to (\<open>Inr\<close>) or the way it fails to (\<open>Inl\<close>):
  \<^item> \<open>Rejected e\<close>: it rejects with an error whose \<^verbatim>\<open>message\<close>, put in a template
    literal, reads as \<open>e\<close>;
  \<^item> \<open>Rejected_unreadable e\<close>: it rejects with a value for which evaluating
    \<^verbatim>\<open>`${error.message}`\<close> raises an error, with message \<open>e\<close>;
  \<^item> \<open>Never_settles\<close>: its promise stays pending for ever;
  \<^item> \<open>Never_returns\<close>: the call itself does not return, and nothing else runs in the page.
  All three handlers destructure their argument, which raises a TypeError when the argument
  is null; \<open>cannot_destructure\<close> is its message, in V8's wording.
\<close>

datatype failure =
    Rejected string
  | Rejected_unreadable string
  | Never_settles
  | Never_returns

type_synonym handler_run = "request list \<times> (failure + string)"

definition cannot_destructure :: "string \<Rightarrow> string" where
  "cannot_destructure p =
     ''Cannot destructure property '' @ [CHR 0x27] @ p @ [CHR 0x27] @ '' of '' @ [CHR 0x27] @
     ''object null'' @ [CHR 0x27] @ '' as it is null.''"

text \<open>
  The parameter names of the function that \<^verbatim>\<open>execute_javascript\<close> creates with
  \<^verbatim>\<open>new Function(...Object.keys(sandboxGlobals), body)\<close>.
\<close>

definition sandboxGlobals :: "string list" where
  "sandboxGlobals =
     [''Math'', ''Date'', ''JSON'', ''parseInt'', ''parseFloat'', ''isNaN'', ''isFinite'',
      ''Array'', ''Object'', ''String'', ''Number'', ''Boolean'', ''RegExp'', ''console'']"

definition execute_javascript :: "env \<Rightarrow> site \<Rightarrow> json \<Rightarrow> handler_run" where
  "execute_javascript E at args =
     (if args = JNull then ([], Inl (Rejected (cannot_destructure ''code'')))
      else
        (case run_code E at sandboxGlobals (template (property ''code'' args)) of
           Returned result type_of \<Rightarrow>
             ([], Inr (JSON_stringify_pretty (obj
                [(''success'', Some (JBool True)),
                 (''result'', result),
                 (''type'', Some (JStr type_of)),
                 (''executedAt'', Some (JStr (toISOString E at)))])))
         | Threw_error msg stack \<Rightarrow>
             ([], Inr (JSON_stringify_pretty (obj
                [(''success'', Some (JBool False)),
                 (''error'', msg),
                 (''stack'', stack),
                 (''executedAt'', Some (JStr (toISOString E at)))])))
         | Catch_raised e \<Rightarrow> ([], Inl (Rejected e))
         | Catch_raised_unreadable e \<Rightarrow> ([], Inl (Rejected_unreadable e))
         | Stays_pending \<Rightarrow> ([], Inl Never_settles)
         | Loops_forever \<Rightarrow> ([], Inl Never_returns)))"

definition search_result :: "(nat \<times> search_item) \<Rightarrow> json" where
  "search_result p =
     obj [(''rank'', Some (JNum (digits (fst p + 1)))),
          (''title'', title (snd p)),
          (''link'', link (snd p)),
          (''snippet'', snippet (snd p)),
          (''displayLink'', displayLink (snd p)),
          (''formattedUrl'', formattedUrl (snd p))]"

definition search_failure :: "env \<Rightarrow> site \<Rightarrow> json option \<Rightarrow> string \<Rightarrow> string" where
  "search_failure E at query err =
     JSON_stringify (obj
       [(''success'', Some (JBool False)),
        (''error'', Some (JStr err)),
        (''query'', query),
        (''timestamp'', Some (JStr (toISOString E at)))])"

definition config_required :: string where
  "config_required =
     JSON_stringify (JObj
       [(''error'', JStr ''Google Search API Key or CX ID is missing. Please configure them in the sidebar.''),
        (''configRequired'', JBool True)])"

definition zero_results :: "json option \<Rightarrow> search_data \<Rightarrow> string" where
  "zero_results query data =
     JSON_stringify (obj
       [(''success'', Some (JBool True)),
        (''query'', query),
        (''totalResults'', Some (JNum ''0'')),
        (''message'', Some (JStr ''No search results found for this query.'')),
        (''searchTime'', searchTime data)])"

definition google_search :: "env \<Rightarrow> site \<Rightarrow> json \<Rightarrow> handler_run" where
  "google_search E at args =
     (if args = JNull then ([], Inl (Rejected (cannot_destructure ''query'')))
      else
        let query = property ''query'' args;
            apiKey = google_cse_key E;
            cx = google_cse_cx E
        in
          if falsy apiKey \<or> falsy cx then ([], Inr config_required)
          else
            (case encodeURIComponent (template query) of
               Inl uri_error \<Rightarrow> ([], Inl (Rejected uri_error))
             | Inr q \<Rightarrow>
                 let url = ''https://www.googleapis.com/customsearch/v1?key='' @
                           template (map_option JStr apiKey) @
                           ''&cx='' @ template (map_option JStr cx) @ ''&q='' @ q
                 in
                   ([GET url],
                    (case fetch_search E at url of
                       Search_pending \<Rightarrow> Inl Never_settles
                     | Search_failed err \<Rightarrow> Inr (search_failure E at query err)
                     | Search_not_ok status statusText msg \<Rightarrow>
                         Inr (search_failure E at query
                           (''Google API error: '' @ digits status @ '' - '' @
                            (if falsy msg then statusText else template (map_option JStr msg))))
                     | Search_ok data \<Rightarrow>
                         (case items data of
                            None \<Rightarrow> Inr (zero_results query data)
                          | Some its \<Rightarrow>
                              if its = [] then Inr (zero_results query data)
                              else
                                Inr (JSON_stringify_pretty (obj
                                  [(''success'', Some (JBool True)),
                                   (''query'', query),
                                   (''totalResults'',
                                      Some (case totalResults data of
                                              None \<Rightarrow> JNull
                                            | Some t \<Rightarrow> JNum (show_int t))),
                                   (''searchTime'', searchTime data),
                                   (''results'',
                                      Some (JArr (map search_result
                                                    (enumerate 0 (take 5 its)))))])))))))"

definition aipipe_workflow :: "env \<Rightarrow> site \<Rightarrow> json \<Rightarrow> handler_run" where
  "aipipe_workflow E at args =
     (if args = JNull then ([], Inl (Rejected (cannot_destructure ''workflow'')))
      else
        let workflow = property ''workflow'' args;
            payload = property ''payload'' args;
            apiKey = aipipe_key E;
            headers = [(''Content-Type'', ''application/json''), (''User-Agent'', ''LLM-Agent-POC/1.0'')] @
                      (if falsy apiKey then []
                       else [(''Authorization'', ''Bearer '' @ template (map_option JStr apiKey))]);
            workflowUrl = ''https://aipipe.org/api/'' @ template workflow;
            req = POST workflowUrl headers (map_option JSON_stringify payload);
            failed = (\<lambda>err. JSON_stringify (obj
                         [(''success'', Some (JBool False)),
                          (''workflow'', workflow),
                          (''payload'', payload),
                          (''error'', Some (JStr err)),
                          (''timestamp'', Some (JStr (toISOString E at))),
                          (''suggestion'', Some (JStr
                             (if falsy apiKey
                              then ''Consider adding an AI Pipe API key for authenticated access.''
                              else ''Check if the workflow name is correct and the payload format is valid. Available workflows might include: '' @
                                   [CHR 0x27] @ ''summarize'' @ [CHR 0x27] @ '', '' @
                                   [CHR 0x27] @ ''sentiment'' @ [CHR 0x27] @ '', '' @
                                   [CHR 0x27] @ ''expand-content'' @ [CHR 0x27] @ ''.'')))]))
        in
          ([req],
           (case fetch_workflow E at req of
              Workflow_pending \<Rightarrow> Inl Never_settles
            | Workflow_failed err \<Rightarrow> Inr (failed err)
            | Workflow_not_ok status statusText errorText \<Rightarrow>
                Inr (failed (''AI Pipe API error: '' @ digits status @ '' '' @ statusText @
                             '' - '' @ errorText))
            | Workflow_ok result \<Rightarrow>
                Inr (JSON_stringify_pretty (obj
                  [(''success'', Some (JBool True)),
                   (''workflow'', workflow),
                   (''payload'', payload),
                   (''result'', Some result),
                   (''timestamp'', Some (JStr (toISOString E at)))])))))"

section \<open>Tool dispatch\<close>

text \<open>
  What one cycle does is recorded as a trace of events, in the order in which they happen:
  the calls of the model endpoint (loop index and messages sent), the changes of the
  \<^verbatim>\<open>messages\<close> array, the handler invocations and the requests the handlers start. A
  trace ends where the submit handler returns, or with \<open>Stalled\<close> when it never does: it
  then waits for ever for a promise, or a handler keeps the page busy for ever.
\<close>

datatype event =
    Model_call nat "message list"
  | Push message
  | Unshift message
  | Invoke site string json
  | Network site request
  | Stalled

text \<open>The \<^verbatim>\<open>switch\<close> on the function name; the default branch awaits nothing.\<close>

definition awaited :: "string \<Rightarrow> bool" where
  "awaited functionName \<longleftrightarrow>
     functionName = ''google_search'' \<or> functionName = ''aipipe_workflow'' \<or>
     functionName = ''execute_javascript''"

definition call_tool :: "env \<Rightarrow> site \<Rightarrow> string \<Rightarrow> json \<Rightarrow> handler_run" where
  "call_tool E at functionName args =
     (if functionName = ''google_search'' then google_search E at args
      else if functionName = ''aipipe_workflow'' then aipipe_workflow E at args
      else if functionName = ''execute_javascript'' then execute_javascript E at args
      else ([], Inr (JSON_stringify (JObj [(''error'', JStr (''Unknown tool: '' @ functionName))]))))"

text \<open>
  The \<^verbatim>\<open>try\<close>/\<^verbatim>\<open>catch\<close> around the switch and what becomes of the variable \<^verbatim>\<open>result\<close>:
  \<^item> \<open>Result r\<close>: it is set, to what the handler resolved to or, by the catch block, to the
    payload made from the \<^verbatim>\<open>message\<close> of what the handler rejected with;
  \<^item> \<open>Catch_threw e\<close>: the catch block could not build the payload and raised an error
    itself, with message \<open>e\<close>, so the callback is over;
  \<^item> \<open>Unsettled\<close>: the \<^verbatim>\<open>await\<close> never comes back;
  \<^item> \<open>Unreturned\<close>: the handler call never returns.
\<close>

datatype attempt =
    Result string
  | Catch_threw string
  | Unsettled
  | Unreturned

definition tool_result :: "env \<Rightarrow> site \<Rightarrow> string \<Rightarrow> json \<Rightarrow> attempt" where
  "tool_result E at functionName args =
     (case snd (call_tool E at functionName args) of
        Inr result \<Rightarrow> Result result
      | Inl (Rejected err) \<Rightarrow>
          Result (JSON_stringify (JObj [(''error'', JStr (''Tool execution failed: '' @ err))]))
      | Inl (Rejected_unreadable e) \<Rightarrow> Catch_threw e
      | Inl Never_settles \<Rightarrow> Unsettled
      | Inl Never_returns \<Rightarrow> Unreturned)"

text \<open>
  The async callback of \<^verbatim>\<open>toolCalls.map\<close> for the call \<open>p = (index, toolCall)\<close>, in three
  parts. \<open>started\<close> is what it does synchronously, while \<^verbatim>\<open>map\<close> runs: \<^verbatim>\<open>JSON.parse\<close>
  (outside the \<^verbatim>\<open>try\<close>: when it throws, the callback is over), the announcement, and
  then either the handler call up to its \<^verbatim>\<open>await\<close> or, for an unknown tool, the rest of the
  callback. \<open>resumed\<close> is what it does when the awaited handler has settled: it pushes the
  presentation result, unless the catch block threw. \<open>settled\<close> is the state of its
  promise: rejected with the parse error or with what the catch block threw, fulfilled with
  \<^verbatim>\<open>toolResultMessage\<close>, or never settled.
\<close>

definition started :: "env \<Rightarrow> nat \<Rightarrow> nat \<Rightarrow> nat \<times> tool_call \<Rightarrow> event list" where
  "started E i n p =
     (let index = fst p; functionName = function_name (snd p) in
      case JSON_parse E (function_arguments (snd p)) of
        Inl err \<Rightarrow> []
      | Inr args \<Rightarrow>
          Push (displayMessage index n functionName args) #
          (if awaited functionName
           then Invoke (i, index) functionName args #
                map (Network (i, index)) (fst (call_tool E (i, index) functionName args))
           else (case tool_result E (i, index) functionName args of
                   Result result \<Rightarrow> [Push (displayResult index functionName result)]
                 | _ \<Rightarrow> [])))"

definition resumed :: "env \<Rightarrow> nat \<Rightarrow> nat \<times> tool_call \<Rightarrow> event list" where
  "resumed E i p =
     (let index = fst p; functionName = function_name (snd p) in
      case JSON_parse E (function_arguments (snd p)) of
        Inl err \<Rightarrow> []
      | Inr args \<Rightarrow>
          (if awaited functionName
           then (case tool_result E (i, index) functionName args of
                   Result result \<Rightarrow> [Push (displayResult index functionName result)]
                 | _ \<Rightarrow> [])
           else []))"

datatype promise =
    Fulfilled message
  | Was_rejected string
  | Still_pending

definition settled :: "env \<Rightarrow> nat \<Rightarrow> nat \<times> tool_call \<Rightarrow> promise" where
  "settled E i p =
     (case JSON_parse E (function_arguments (snd p)) of
        Inl err \<Rightarrow> Was_rejected err
      | Inr args \<Rightarrow>
          (case tool_result E (i, fst p) (function_name (snd p)) args of
             Result result \<Rightarrow> Fulfilled (toolResultMessage (snd p) result)
           | Catch_threw e \<Rightarrow> Was_rejected e
           | Unsettled \<Rightarrow> Still_pending
           | Unreturned \<Rightarrow> Still_pending))"

text \<open>
  The promises that \<^verbatim>\<open>toolCalls.map(...)\<close> makes, in the order of the calls, and the
  values that the filter on \<^verbatim>\<open>fulfilled\<close> keeps of them.
\<close>

definition toolResults :: "env \<Rightarrow> nat \<Rightarrow> tool_call list \<Rightarrow> promise list" where
  "toolResults E i toolCalls = map (settled E i) (enumerate 0 toolCalls)"

definition actualToolResults :: "env \<Rightarrow> nat \<Rightarrow> tool_call list \<Rightarrow> message list" where
  "actualToolResults E i toolCalls =
     concat (map (\<lambda>r. case r of Fulfilled v \<Rightarrow> [v] | _ \<Rightarrow> []) (toolResults E i toolCalls))"

text \<open>
  A call whose handler never returns, and a call whose callback stays pending. When there
  is one, \<^verbatim>\<open>Promise.allSettled\<close> never resolves.
\<close>

definition freezes :: "env \<Rightarrow> nat \<Rightarrow> nat \<times> tool_call \<Rightarrow> bool" where
  "freezes E i p =
     (case JSON_parse E (function_arguments (snd p)) of
        Inl err \<Rightarrow> False
      | Inr args \<Rightarrow> tool_result E (i, fst p) (function_name (snd p)) args = Unreturned)"

definition hangs :: "env \<Rightarrow> nat \<Rightarrow> tool_call list \<Rightarrow> bool" where
  "hangs E i toolCalls = list_ex (\<lambda>p. settled E i p = Still_pending) (enumerate 0 toolCalls)"

text \<open>
  The synchronous parts of the callbacks, in the order of the calls; a handler that never
  returns is the last thing that runs.
\<close>

fun run_started :: "env \<Rightarrow> nat \<Rightarrow> nat \<Rightarrow> (nat \<times> tool_call) list \<Rightarrow> event list" where
  "run_started E i n [] = []"
| "run_started E i n (p # ps) =
     started E i n p @ (if freezes E i p then [] else run_started E i n ps)"

text \<open>
  The whole dispatch of iteration \<open>i\<close>: first every callback runs its synchronous part, in
  the order of the calls; then the callbacks resume, in the order in which their handlers
  settle (earlier call first among handlers that settle at the same instant); when all
  promises are settled, the fulfilled values are pushed together. With a handler that never
  returns nothing happens after its call; with a handler that never settles the other
  callbacks resume, but the fulfilled values are never pushed.
\<close>

definition dispatch :: "env \<Rightarrow> nat \<Rightarrow> tool_call list \<Rightarrow> event list" where
  "dispatch E i toolCalls =
     (if list_ex (freezes E i) (enumerate 0 toolCalls)
      then run_started E i (length toolCalls) (enumerate 0 toolCalls) @ [Stalled]
      else
        run_started E i (length toolCalls) (enumerate 0 toolCalls) @
        concat (map (resumed E i) (sort_key (\<lambda>p. settles_at E (i, fst p)) (enumerate 0 toolCalls))) @
        (if hangs E i toolCalls then [Stalled]
         else map Push (actualToolResults E i toolCalls)))"

section \<open>The reasoning loop\<close>

definition maxLoops :: nat where
  "maxLoops = 10"

definition agentPrompt :: string where
  "agentPrompt =
     ''You are an intelligent multi-tool reasoning agent. Your goal is to help users accomplish their tasks by automatically using the appropriate tools and reasoning through problems step by step.'' @ [CHR 0x0A] @
     '''' @ [CHR 0x0A] @
     ''Key behaviors:'' @ [CHR 0x0A] @
     ''1. Be proactive - if a user asks something that could benefit from web search, code execution, or AI workflows, use those tools automatically'' @ [CHR 0x0A] @
     ''2. Chain tool calls logically - search for information first, then process it with code or workflows as needed'' @ [CHR 0x0A] @
     ''3. Always explain what you're doing and why you're using specific tools'' @ [CHR 0x0A] @
     ''4. For calculations, use JavaScript execution to show your work'' @ [CHR 0x0A] @
     ''5. For current information, use Google search'' @ [CHR 0x0A] @
     ''6. For AI workflows, use simple workflow names like 'summarize', 'sentiment', 'expand-content' with appropriate text payload'' @ [CHR 0x0A] @
     ''7. Be conversational and helpful - guide users through multi-step processes'' @ [CHR 0x0A] @
     '''' @ [CHR 0x0A] @
     ''Available tools: '' @ [CHR 0x0A] @
     ''- google_search: Search the web for current information'' @ [CHR 0x0A] @
     ''- execute_javascript: Run calculations and data processing'' @ [CHR 0x0A] @
     ''- aipipe_workflow: Use AI workflows for text processing (workflow names: 'summarize', 'sentiment', 'expand-content')'' @ [CHR 0x0A] @
     '''' @ [CHR 0x0A] @
     ''Important: For AI workflows, use workflow names (not URLs) and include text content in the payload.''"

definition system_message :: message where
  "system_message = plain_message ''system'' agentPrompt"

text \<open>The entries that a list of events appends to \<^verbatim>\<open>messages\<close>.\<close>

definition pushed :: "event list \<Rightarrow> message list" where
  "pushed evs = concat (map (\<lambda>e. case e of Push m \<Rightarrow> [m] | _ \<Rightarrow> []) evs)"

text \<open>
  The \<^verbatim>\<open>for\<close> loop of the submit handler inside its \<^verbatim>\<open>try\<close>, from loop index \<open>i\<close>
  with the array \<open>msgs\<close>, followed by what the \<^verbatim>\<open>catch\<close> block or the code after the loop
  appends. The loop goes on after a dispatch only when \<^verbatim>\<open>Promise.allSettled\<close> has resolved.
\<close>

function agent_loop :: "env \<Rightarrow> nat \<Rightarrow> message list \<Rightarrow> event list" where
  "agent_loop E i msgs =
     (if i < maxLoops then
        Model_call i (apiMessages msgs) #
        (case chat_completions E i (apiMessages msgs) of
           Call_failed err \<Rightarrow> [Push (error_message err)]
         | Not_ok status statusText errorText \<Rightarrow>
             [Push (error_message
                (''API Error: '' @ digits status @ '' '' @ statusText @ [CHR 0x0A] @ errorText))]
         | No_response \<Rightarrow> [Stalled]
         | Reply message \<Rightarrow>
             Push message #
             (case tool_calls message of
                None \<Rightarrow> []
              | Some toolCalls \<Rightarrow>
                  dispatch E i toolCalls @
                  (if hangs E i toolCalls then []
                   else agent_loop E (Suc i) (msgs @ message # pushed (dispatch E i toolCalls)))))
      else [Push max_loop_message])"
  by pat_completeness auto
termination
  by (relation "measure (\<lambda>(E, i, msgs). maxLoops - i)") auto

declare agent_loop.simps [simp del]

text \<open>
  The session: the global array and the flag that \<^verbatim>\<open>showTyping\<close> sets while a cycle runs.
\<close>

record session =
  messages :: "message list"
  isProcessing :: bool

text \<open>
  The submit handler for the trimmed text \<open>question\<close> of the input field. It returns at
  once while a cycle is running, on an empty question and on a missing API key.
\<close>

definition submit :: "env \<Rightarrow> string \<Rightarrow> session \<Rightarrow> event list" where
  "submit E question s =
     (if isProcessing s then []
      else if question = [] then []
      else if apiKeyInput E = [] then []
      else
        Push (plain_message ''user'' question) #
        (if length (messages s @ [plain_message ''user'' question]) = 1
         then Unshift system_message #
              agent_loop E 0 (system_message # messages s @ [plain_message ''user'' question])
         else agent_loop E 0 (messages s @ [plain_message ''user'' question])))"

text \<open>
  The array after a trace, and the session after a submission: \<^verbatim>\<open>showTyping(true)\<close> sets
  the flag and the \<^verbatim>\<open>finally\<close> block resets it, which never happens in a cycle that stalls.
\<close>

fun replay :: "message list \<Rightarrow> event list \<Rightarrow> message list" where
  "replay msgs [] = msgs"
| "replay msgs (Push m # evs) = replay (msgs @ [m]) evs"
| "replay msgs (Unshift m # evs) = replay (m # msgs) evs"
| "replay msgs (_ # evs) = replay msgs evs"

definition after_submit :: "env \<Rightarrow> string \<Rightarrow> session \<Rightarrow> session" where
  "after_submit E question s =
     \<lparr>messages = replay (messages s) (submit E question s),
      isProcessing = (isProcessing s \<or> Stalled \<in> set (submit E question s))\<rparr>"

section \<open>Notions used in the properties\<close>

text \<open>A tool call whose argument text \<^verbatim>\<open>JSON.parse\<close> accepts.\<close>

definition parses :: "env \<Rightarrow> tool_call \<Rightarrow> bool" where
  "parses E toolCall =
     (case JSON_parse E (function_arguments toolCall) of Inl err \<Rightarrow> False | Inr args \<Rightarrow> True)"

text \<open>
  A tool-result entry is an entry with role \<^verbatim>\<open>tool\<close>: the wire one goes to the model, the
  presentation one is display-only.
\<close>

definition wire_result :: "message \<Rightarrow> bool" where
  "wire_result m = (role m = ''tool'' \<and> \<not> isDisplayOnly m)"

definition presentation_result :: "message \<Rightarrow> bool" where
  "presentation_result m = (role m = ''tool'' \<and> isDisplayOnly m)"

fun is_model_call :: "event \<Rightarrow> bool" where
  "is_model_call (Model_call i w) = True"
| "is_model_call _ = False"

text \<open>The loop iteration in which a model call, a handler invocation or a request happens.\<close>

fun iteration_of :: "event \<Rightarrow> nat option" where
  "iteration_of (Model_call i w) = Some i"
| "iteration_of (Invoke at f a) = Some (fst at)"
| "iteration_of (Network at r) = Some (fst at)"
| "iteration_of _ = None"

text \<open>
  An event that belongs to the tool call at position \<open>k\<close>: its display entries carry
  \<^verbatim>\<open>toolCallIndex\<close>, its invocation and requests carry the site.
\<close>

fun about_call :: "nat \<Rightarrow> event \<Rightarrow> bool" where
  "about_call k (Push m) = (toolCallIndex m = Some k)"
| "about_call k (Invoke at f a) = (snd at = k)"
| "about_call k (Network at r) = (snd at = k)"
| "about_call k _ = False"

text \<open>
  An event that appends an entry which goes to the model, a promise that was rejected, the
  value of \<^verbatim>\<open>result\<close> in the callback of a call, when it gets one, and the calls whose
  callback is started at all: those with no call before them that never returns.
\<close>

fun wire_push :: "event \<Rightarrow> bool" where
  "wire_push (Push m) = (\<not> isDisplayOnly m)"
| "wire_push _ = False"

fun is_rejected :: "promise \<Rightarrow> bool" where
  "is_rejected (Was_rejected reason) = True"
| "is_rejected _ = False"

definition callback_result :: "env \<Rightarrow> nat \<Rightarrow> nat \<times> tool_call \<Rightarrow> string option" where
  "callback_result E i p =
     (case JSON_parse E (function_arguments (snd p)) of
        Inl err \<Rightarrow> None
      | Inr args \<Rightarrow>
          (case tool_result E (i, fst p) (function_name (snd p)) args of
             Result result \<Rightarrow> Some result
           | _ \<Rightarrow> None))"

definition reached :: "env \<Rightarrow> nat \<Rightarrow> tool_call list \<Rightarrow> nat \<Rightarrow> bool" where
  "reached E i toolCalls k = (\<not> list_ex (freezes E i) (take k (enumerate 0 toolCalls)))"

text \<open>
  Name resolution inside the function that \<^verbatim>\<open>execute_javascript\<close> creates. A function made
  by \<^verbatim>\<open>new Function\<close> has the global environment as its outer scope, so an identifier that
  the code does not declare itself is first one of the parameters, the injected sandbox
  values, and otherwise a property of the page's global object, when there is one of that name.
\<close>

datatype binding = Sandbox_value | Host_global | Unbound

definition resolve_identifier :: "(string \<Rightarrow> bool) \<Rightarrow> string \<Rightarrow> binding" where
  "resolve_identifier host x =
     (if x \<in> set sandboxGlobals then Sandbox_value
      else if host x then Host_global
      else Unbound)"

section \<open>Example inputs\<close>

text \<open>
  A parser table for the examples. It agrees with \<^verbatim>\<open>JSON.parse\<close> on which of the argument
  texts that occur in them are JSON, and on their values: five are JSON, and one is cut off
  in the middle. The message of the SyntaxError is worded differently from engine to engine;
  the table has a stand-in for it, and no property depends on its wording.
\<close>

definition example_parse :: "string \<Rightarrow> string + json" where
  "example_parse s =
     (if s = ''{\"code\":\"return 1\"}'' then Inr (JObj [(''code'', JStr ''return 1'')])
      else if s = ''{\"query\":\"tea\"}'' then Inr (JObj [(''query'', JStr ''tea'')])
      else if s = ''null'' then Inr JNull
      else if s = ''{\"code\":\"return new Promise(() => {})\"}''
        then Inr (JObj [(''code'', JStr ''return new Promise(() => {})'')])
      else if s = ''{\"code\":\"throw {get message(){throw null}}\"}''
        then Inr (JObj [(''code'', JStr ''throw {get message(){throw null}}'')])
      else Inl ''Unterminated string in JSON'')"

text \<open>
  The engine, as a table for the three code texts of the examples: one returns a number, one
  returns a promise that never settles, and one throws an object whose \<^verbatim>\<open>message\<close> getter
  throws null, so that the handler's catch block raises null and reading its \<^verbatim>\<open>message\<close>
  in the dispatch is a TypeError (in V8's wording).
\<close>

definition example_code :: "site \<Rightarrow> string list \<Rightarrow> string \<Rightarrow> js_outcome" where
  "example_code at params code =
     (if code = ''return 1'' then Returned (Some (JNum ''1'')) ''number''
      else if code = ''return new Promise(() => {})'' then Stays_pending
      else if code = ''throw {get message(){throw null}}''
        then Catch_raised_unreadable
               (''Cannot read properties of null (reading '' @ [CHR 0x27] @ ''message'' @
                [CHR 0x27] @ '')'')
      else Threw_error (Some (JStr ''code is not defined'')) None)"

definition example_env :: "(nat \<Rightarrow> message list \<Rightarrow> model_response) \<Rightarrow> env" where
  "example_env reply =
     \<lparr>JSON_parse = example_parse,
      apiKeyInput = ''key'',
      chat_completions = reply,
      google_cse_key = None,
      google_cse_cx = Some ''cx'',
      aipipe_key = None,
      fetch_search = (\<lambda>at url. Search_failed ''Failed to fetch''),
      fetch_workflow = (\<lambda>at req. Workflow_failed ''Failed to fetch''),
      run_code = example_code,
      toISOString = (\<lambda>at. ''2025-01-01T00:00:00.000Z''),
      settles_at = (\<lambda>at. 10 - snd at)\<rparr>"

definition call_code :: tool_call where
  "call_code = \<lparr>call_id = ''call_1'', function_name = ''execute_javascript'',
                function_arguments = ''{\"code\":\"return 1\"}''\<rparr>"

definition call_search :: tool_call where
  "call_search = \<lparr>call_id = ''call_2'', function_name = ''google_search'',
                  function_arguments = ''{\"query\":\"tea\"}''\<rparr>"

definition call_cut_off :: tool_call where
  "call_cut_off = \<lparr>call_id = ''call_3'', function_name = ''execute_javascript'',
                   function_arguments = ''{\"code\":\"retu''\<rparr>"

definition call_null :: tool_call where
  "call_null = \<lparr>call_id = ''call_4'', function_name = ''execute_javascript'',
                function_arguments = ''null''\<rparr>"

definition call_waits :: tool_call where
  "call_waits = \<lparr>call_id = ''call_5'', function_name = ''execute_javascript'',
                 function_arguments = ''{\"code\":\"return new Promise(() => {})\"}''\<rparr>"

definition call_opaque :: tool_call where
  "call_opaque = \<lparr>call_id = ''call_6'', function_name = ''execute_javascript'',
                  function_arguments = ''{\"code\":\"throw {get message(){throw null}}\"}''\<rparr>"

definition asks :: "tool_call list \<Rightarrow> message" where
  "asks toolCalls =
     \<lparr>role = ''assistant'', name = None, content = None, tool_calls = Some toolCalls,
      tool_call_id = None, isDisplayOnly = False, toolCallIndex = None\<rparr>"

definition always_asks :: "tool_call list \<Rightarrow> nat \<Rightarrow> message list \<Rightarrow> model_response" where
  "always_asks toolCalls i w = Reply (asks toolCalls)"

definition asks_then_waits :: "nat \<Rightarrow> message list \<Rightarrow> model_response" where
  "asks_then_waits i w = Reply (asks (if i < 9 then [call_code] else [call_waits]))"

definition server_error :: "nat \<Rightarrow> message list \<Rightarrow> model_response" where
  "server_error i w = Not_ok 500 ''Internal Server Error'' ''upstream down''"

text \<open>The globals of a browser page that the examples refer to.\<close>

definition browser_page :: "string \<Rightarrow> bool" where
  "browser_page x = (x \<in> set [''window'', ''document'', ''globalThis'', ''fetch'', ''localStorage''])"

text \<open>
  What the model is sent at the tenth call of a cycle in which it asked for \<open>call_code\<close>
  nine times, when the user started a fresh session with the question \<^verbatim>\<open>hi\<close>.
\<close>

definition example_wire :: "message list" where
  "example_wire =
     [system_message, plain_message ''user'' ''hi''] @
     concat (replicate 9
       [asks [call_code],
        toolResultMessage call_code
          (JSON_stringify_pretty (obj
             [(''success'', Some (JBool True)), (''result'', Some (JNum ''1'')),
              (''type'', Some (JStr ''number'')),
              (''executedAt'', Some (JStr ''2025-01-01T00:00:00.000Z''))]))])"

text \<open>The entries that one round of that cycle appends to the array.\<close>

definition round_entries :: "message list" where
  "round_entries =
     [asks [call_code],
      displayMessage 0 1 ''execute_javascript'' (JObj [(''code'', JStr ''return 1'')]),
      displayResult 0 ''execute_javascript'' (JSON_stringify_pretty (obj
        [(''success'', Some (JBool True)), (''result'', Some (JNum ''1'')),
         (''type'', Some (JStr ''number'')),
         (''executedAt'', Some (JStr ''2025-01-01T00:00:00.000Z''))])),
      toolResultMessage call_code (JSON_stringify_pretty (obj
        [(''success'', Some (JBool True)), (''result'', Some (JNum ''1'')),
         (''type'', Some (JStr ''number'')),
         (''executedAt'', Some (JStr ''2025-01-01T00:00:00.000Z''))]))]"

definition fresh :: session where
  "fresh = \<lparr>messages = [], isProcessing = False\<rparr>"

section \<open>Lemmas about traces and the dispatch\<close>

lemma pushed_simps [simp]:
  "pushed [] = []"
  "pushed (Push m # evs) = m # pushed evs"
  "pushed (Model_call i w # evs) = pushed evs"
  "pushed (Unshift m # evs) = pushed evs"
  "pushed (Invoke at f a # evs) = pushed evs"
  "pushed (Network at r # evs) = pushed evs"
  "pushed (Stalled # evs) = pushed evs"
  by (simp_all add: pushed_def)

lemma pushed_append [simp]: "pushed (xs @ ys) = pushed xs @ pushed ys"
  by (simp add: pushed_def)

lemma pushed_map_Push [simp]: "pushed (map Push ms) = ms"
  by (induction ms) simp_all

lemma pushed_map_Network [simp]: "pushed (map (Network at) rs) = []"
  by (induction rs) simp_all

lemma message_flags [simp]:
  "isDisplayOnly (displayMessage k n f a)"
  "isDisplayOnly (displayResult k f r)"
  "\<not> isDisplayOnly (toolResultMessage c r)"
  "role (displayMessage k n f a) = ''assistant''"
  "role (displayResult k f r) = ''tool''"
  "role (toolResultMessage c r) = ''tool''"
  "tool_call_id (toolResultMessage c r) = Some (call_id c)"
  "toolCallIndex (displayMessage k n f a) = Some k"
  "toolCallIndex (displayResult k f r) = Some k"
  "toolCallIndex (toolResultMessage c r) = None"
  by (simp_all add: displayMessage_def displayResult_def toolResultMessage_def)

text \<open>The entries of the dispatch, written out.\<close>

lemma displayMessage_entry:
  "displayMessage k n f a =
     \<lparr>role = ''assistant'', name = Some ''tool-call'',
      content = Some ([CHR 0xF0, CHR 0x9F, CHR 0x94, CHR 0xA7] @ '' **Calling tool: '' @ f @
                      ''** ('' @ digits (k + 1) @ ''/'' @ digits n @ '')'' @ [CHR 0x0A] @
                      ''```json'' @ [CHR 0x0A] @ JSON_stringify_pretty a @ [CHR 0x0A] @ ''```''),
      tool_calls = None, tool_call_id = None, isDisplayOnly = True, toolCallIndex = Some k\<rparr>"
  by (simp add: displayMessage_def)

lemma displayResult_entry:
  "displayResult k f r =
     \<lparr>role = ''tool'', name = Some f, content = Some r, tool_calls = None, tool_call_id = None,
      isDisplayOnly = True, toolCallIndex = Some k\<rparr>"
  by (simp add: displayResult_def)

lemma toolResultMessage_entry:
  "toolResultMessage c r =
     \<lparr>role = ''tool'', name = Some (function_name c), content = Some r, tool_calls = None,
      tool_call_id = Some (call_id c), isDisplayOnly = False, toolCallIndex = None\<rparr>"
  by (simp add: toolResultMessage_def)

lemma callback_result_Some:
  "callback_result E i p = Some r \<longleftrightarrow>
     (\<exists>args. JSON_parse E (function_arguments (snd p)) = Inr args \<and>
             tool_result E (i, fst p) (function_name (snd p)) args = Result r)"
  by (auto simp: callback_result_def split: sum.splits attempt.splits)

lemma started_events:
  "started E i n p =
     (case JSON_parse E (function_arguments (snd p)) of
        Inl err \<Rightarrow> []
      | Inr args \<Rightarrow>
          Push (displayMessage (fst p) n (function_name (snd p)) args) #
          (if awaited (function_name (snd p))
           then Invoke (i, fst p) (function_name (snd p)) args #
                map (Network (i, fst p)) (fst (call_tool E (i, fst p) (function_name (snd p)) args))
           else (case callback_result E i p of
                   Some r \<Rightarrow> [Push (displayResult (fst p) (function_name (snd p)) r)]
                 | None \<Rightarrow> [])))"
  by (simp add: started_def callback_result_def Let_def split: sum.split attempt.split)

lemma resumed_events:
  "resumed E i p =
     (if awaited (function_name (snd p))
      then (case callback_result E i p of
              Some r \<Rightarrow> [Push (displayResult (fst p) (function_name (snd p)) r)]
            | None \<Rightarrow> [])
      else [])"
  by (simp add: resumed_def callback_result_def Let_def split: sum.split attempt.split)

lemma settled_cases:
  "settled E i p =
     (case JSON_parse E (function_arguments (snd p)) of
        Inl err \<Rightarrow> Was_rejected err
      | Inr args \<Rightarrow>
          (case tool_result E (i, fst p) (function_name (snd p)) args of
             Result r \<Rightarrow> Fulfilled (toolResultMessage (snd p) r)
           | Catch_threw e \<Rightarrow> Was_rejected e
           | Unsettled \<Rightarrow> Still_pending
           | Unreturned \<Rightarrow> Still_pending))"
  by (simp add: settled_def)

lemma settled_Fulfilled:
  "settled E i p = Fulfilled m \<longleftrightarrow>
     (\<exists>r. callback_result E i p = Some r \<and> m = toolResultMessage (snd p) r)"
  by (auto simp: settled_def callback_result_def split: sum.splits attempt.splits)

text \<open>The kinds of events in the two parts of a callback.\<close>

lemma started_elem:
  assumes "e \<in> set (started E i n p)"
  obtains (announce) args where "e = Push (displayMessage (fst p) n (function_name (snd p)) args)"
  | (invoke) args where "e = Invoke (i, fst p) (function_name (snd p)) args"
  | (request) r where "e = Network (i, fst p) r"
  | (result) r where "e = Push (displayResult (fst p) (function_name (snd p)) r)"
proof (cases "JSON_parse E (function_arguments (snd p))")
  case (Inl err)
  with assms show ?thesis by (simp add: started_events)
next
  case (Inr args)
  show ?thesis
  proof (cases "awaited (function_name (snd p))")
    case True
    with assms Inr show ?thesis
      using announce invoke request by (auto simp: started_events)
  next
    case False
    with assms Inr show ?thesis
      using announce result by (cases "callback_result E i p") (auto simp: started_events)
  qed
qed

lemma resumed_elem:
  assumes "e \<in> set (resumed E i p)"
  obtains r where "e = Push (displayResult (fst p) (function_name (snd p)) r)"
  using assms
  by (cases "awaited (function_name (snd p))"; cases "callback_result E i p")
     (auto simp: resumed_events)

lemma started_display_only: "m \<in> set (pushed (started E i n p)) \<Longrightarrow> isDisplayOnly m"
proof -
  assume "m \<in> set (pushed (started E i n p))"
  then have "Push m \<in> set (started E i n p)"
    by (auto simp: pushed_def split: event.splits)
  then show ?thesis by (rule started_elem) simp_all
qed

lemma resumed_display_only: "m \<in> set (pushed (resumed E i p)) \<Longrightarrow> isDisplayOnly m"
proof -
  assume "m \<in> set (pushed (resumed E i p))"
  then have "Push m \<in> set (resumed E i p)"
    by (auto simp: pushed_def split: event.splits)
  then show ?thesis by (rule resumed_elem) simp
qed

lemma freezes_hangs: "list_ex (freezes E i) (enumerate 0 toolCalls) \<Longrightarrow> hangs E i toolCalls"
  by (auto simp: hangs_def freezes_def settled_def list_ex_iff split: sum.splits)

lemma run_started_all:
  "\<not> list_ex (freezes E i) ps \<Longrightarrow> run_started E i n ps = concat (map (started E i n) ps)"
  by (induction ps) simp_all

lemma run_started_append:
  "\<not> list_ex (freezes E i) xs \<Longrightarrow>
   run_started E i n (xs @ ys) = concat (map (started E i n) xs) @ run_started E i n ys"
  by (induction xs) simp_all

lemma in_run_started:
  "e \<in> set (run_started E i n ps) \<Longrightarrow> \<exists>p \<in> set ps. e \<in> set (started E i n p)"
  by (induction ps) (auto split: if_splits)

lemma run_started_display_only: "m \<in> set (pushed (run_started E i n ps)) \<Longrightarrow> isDisplayOnly m"
proof (induction ps)
  case Nil
  then show ?case by simp
next
  case (Cons p ps)
  then show ?case by (auto dest: started_display_only split: if_splits)
qed

lemma resumed_part_display_only:
  "m \<in> set (pushed (concat (map (resumed E i) ps))) \<Longrightarrow> isDisplayOnly m"
  by (induction ps) (auto dest: resumed_display_only)

text \<open>
  The fulfilled values are the results of the callbacks that got one, in the order of the
  calls.
\<close>

lemma actualToolResults_eq:
  "actualToolResults E i toolCalls =
     List.map_filter (\<lambda>p. map_option (toolResultMessage (snd p)) (callback_result E i p))
       (enumerate 0 toolCalls)"
proof -
  have "concat (map (\<lambda>r. case r of Fulfilled v \<Rightarrow> [v] | _ \<Rightarrow> []) (map (settled E i) ps)) =
     List.map_filter (\<lambda>p. map_option (toolResultMessage (snd p)) (callback_result E i p)) ps" for ps
    by (induction ps)
       (auto simp: settled_def callback_result_def List.map_filter_simps
             split: sum.splits attempt.splits)
  then show ?thesis by (simp add: actualToolResults_def toolResults_def)
qed

lemma actual_not_display_only: "m \<in> set (actualToolResults E i toolCalls) \<Longrightarrow> \<not> isDisplayOnly m"
  by (auto simp: actualToolResults_eq List.map_filter_def)

lemma actual_wire_result: "m \<in> set (actualToolResults E i toolCalls) \<Longrightarrow> wire_result m"
  by (auto simp: actualToolResults_eq List.map_filter_def wire_result_def)

lemma dispatch_pushed:
  "\<exists>shown. (\<forall>m \<in> set shown. isDisplayOnly m) \<and>
     pushed (dispatch E i toolCalls) =
       shown @ (if hangs E i toolCalls then [] else actualToolResults E i toolCalls)"
proof (cases "list_ex (freezes E i) (enumerate 0 toolCalls)")
  case True
  then have "pushed (dispatch E i toolCalls) =
      pushed (run_started E i (length toolCalls) (enumerate 0 toolCalls)) @ []"
    by (simp add: dispatch_def)
  then show ?thesis
    using freezes_hangs[OF True] run_started_display_only by fastforce
next
  case False
  let ?shown = "pushed (run_started E i (length toolCalls) (enumerate 0 toolCalls)) @
     pushed (concat (map (resumed E i)
       (sort_key (\<lambda>p. settles_at E (i, fst p)) (enumerate 0 toolCalls))))"
  have "pushed (dispatch E i toolCalls) =
      ?shown @ (if hangs E i toolCalls then [] else actualToolResults E i toolCalls)"
    using False by (simp add: dispatch_def)
  moreover have "\<forall>m \<in> set ?shown. isDisplayOnly m"
    using run_started_display_only resumed_part_display_only by fastforce
  ultimately show ?thesis by blast
qed

lemma wire_results_of_dispatch:
  "filter wire_result (pushed (dispatch E i toolCalls)) =
     (if hangs E i toolCalls then [] else actualToolResults E i toolCalls)"
proof -
  obtain shown where s: "\<forall>m \<in> set shown. isDisplayOnly m"
    "pushed (dispatch E i toolCalls) =
       shown @ (if hangs E i toolCalls then [] else actualToolResults E i toolCalls)"
    using dispatch_pushed by blast
  have "filter wire_result shown = []"
    using s(1) by (auto simp: filter_empty_conv wire_result_def)
  moreover have "filter wire_result (actualToolResults E i toolCalls) = actualToolResults E i toolCalls"
    by (simp add: filter_id_conv actual_wire_result)
  ultimately show ?thesis by (simp add: s(2))
qed

lemma enumerate_split:
  "k < length xs \<Longrightarrow>
   enumerate n xs = enumerate n (take k xs) @ (n + k, xs ! k) # enumerate (Suc (n + k)) (drop (Suc k) xs)"
proof (induction xs arbitrary: n k)
  case Nil
  then show ?case by simp
next
  case (Cons x xs)
  show ?case
  proof (cases k)
    case 0
    then show ?thesis by simp
  next
    case (Suc k')
    with Cons.prems have "k' < length xs" by simp
    from Cons.IH[OF this, of "Suc n"] Suc show ?thesis by simp
  qed
qed

lemma take_enumerate: "take k (enumerate n xs) = enumerate n (take k xs)"
  by (induction xs arbitrary: n k) (auto simp: take_Cons split: nat.split)

lemma in_enumerate: "k < length xs \<Longrightarrow> (k, xs ! k) \<in> set (enumerate 0 xs)"
  by (simp add: in_set_enumerate_eq)

lemma fst_in_enumerate: "p \<in> set (enumerate 0 xs) \<Longrightarrow> snd p = xs ! fst p \<and> fst p < length xs"
  by (cases p) (simp add: in_set_enumerate_eq)

lemma toolResults_nth:
  "k < length toolCalls \<Longrightarrow> toolResults E i toolCalls ! k = settled E i (k, toolCalls ! k)"
  by (simp add: toolResults_def nth_enumerate_eq)

lemma started_about: "e \<in> set (started E i n p) \<Longrightarrow> about_call (fst p) e"
  by (erule started_elem) simp_all

lemma started_no_wire: "e \<in> set (started E i n p) \<Longrightarrow> \<not> wire_push e"
  by (erule started_elem) simp_all

lemma wire_result_pushed:
  assumes "j < length toolCalls" and "callback_result E i (j, toolCalls ! j) = Some r"
    and "\<not> hangs E i toolCalls"
  shows "Push (toolResultMessage (toolCalls ! j) r) \<in> set (dispatch E i toolCalls)"
proof -
  have "(j, toolCalls ! j) \<in> set (enumerate 0 toolCalls)"
    using assms(1) by (rule in_enumerate)
  then have "toolResultMessage (toolCalls ! j) r \<in> set (actualToolResults E i toolCalls)"
    using assms(2) by (force simp: actualToolResults_eq List.map_filter_def)
  moreover have "\<not> list_ex (freezes E i) (enumerate 0 toolCalls)"
    using assms(3) freezes_hangs by blast
  ultimately show ?thesis
    using assms(3) by (simp add: dispatch_def)
qed

lemma display_result_pushed:
  assumes "j < length toolCalls" and "callback_result E i (j, toolCalls ! j) = Some r"
    and "\<not> list_ex (freezes E i) (enumerate 0 toolCalls)"
  shows "Push (displayResult j (function_name (toolCalls ! j)) r) \<in> set (dispatch E i toolCalls)"
proof -
  let ?p = "(j, toolCalls ! j)"
  let ?e = "Push (displayResult j (function_name (toolCalls ! j)) r)"
  have p: "?p \<in> set (enumerate 0 toolCalls)"
    using assms(1) by (rule in_enumerate)
  obtain args where a: "JSON_parse E (function_arguments (toolCalls ! j)) = Inr args"
    using assms(2) by (auto simp: callback_result_Some)
  show ?thesis
  proof (cases "awaited (function_name (toolCalls ! j))")
    case True
    have "?p \<in> set (sort_key (\<lambda>p. settles_at E (i, fst p)) (enumerate 0 toolCalls))"
      using p by simp
    moreover have "?e \<in> set (resumed E i ?p)"
      using True assms(2) by (simp add: resumed_events)
    ultimately have "?e \<in> set (concat (map (resumed E i)
        (sort_key (\<lambda>p. settles_at E (i, fst p)) (enumerate 0 toolCalls))))"
      by (auto simp del: set_sort)
    then show ?thesis using assms(3) by (simp add: dispatch_def)
  next
    case False
    have "?e \<in> set (started E i (length toolCalls) ?p)"
      using False assms(2) a by (simp add: started_events)
    with p have "?e \<in> set (concat (map (started E i (length toolCalls)) (enumerate 0 toolCalls)))"
      by auto
    then show ?thesis using assms(3) by (simp add: dispatch_def run_started_all)
  qed
qed

section \<open>Lemmas about the loop\<close>

lemma dispatch_event_cases:
  assumes "e \<in> set (dispatch E i toolCalls)"
  obtains (stalled) "e = Stalled" "hangs E i toolCalls"
  | (started) n p where "e \<in> set (started E i n p)"
  | (resumed) p where "e \<in> set (resumed E i p)"
  | (wire) m where "e = Push m" "m \<in> set (actualToolResults E i toolCalls)"
proof (cases "list_ex (freezes E i) (enumerate 0 toolCalls)")
  case True
  with assms have "e \<in> set (run_started E i (length toolCalls) (enumerate 0 toolCalls)) \<or> e = Stalled"
    by (auto simp: dispatch_def)
  then show ?thesis
  proof
    assume "e \<in> set (run_started E i (length toolCalls) (enumerate 0 toolCalls))"
    then show ?thesis using in_run_started started by blast
  next
    assume "e = Stalled"
    then show ?thesis using freezes_hangs[OF True] by (rule stalled)
  qed
next
  case False
  with assms consider
    "e \<in> set (run_started E i (length toolCalls) (enumerate 0 toolCalls))"
    | "e \<in> set (concat (map (resumed E i)
         (sort_key (\<lambda>p. settles_at E (i, fst p)) (enumerate 0 toolCalls))))"
    | "hangs E i toolCalls" "e = Stalled"
    | "\<not> hangs E i toolCalls" "e \<in> set (map Push (actualToolResults E i toolCalls))"
    by (auto simp: dispatch_def split: if_splits)
  then show ?thesis
  proof cases
    case 1
    then show ?thesis using in_run_started started by blast
  next
    case 2
    then obtain p where "e \<in> set (resumed E i p)" by auto
    then show ?thesis by (rule resumed)
  next
    case 3
    then show ?thesis using stalled by blast
  next
    case 4
    then show ?thesis using wire by auto
  qed
qed

lemma started_iteration: "e \<in> set (started E i n p) \<Longrightarrow> iteration_of e = None \<or> iteration_of e = Some i"
  by (erule started_elem) simp_all

lemma resumed_iteration: "e \<in> set (resumed E i p) \<Longrightarrow> iteration_of e = None"
  by (erule resumed_elem) simp

lemma dispatch_iteration:
  "e \<in> set (dispatch E i toolCalls) \<Longrightarrow> iteration_of e = None \<or> iteration_of e = Some i"
proof (erule dispatch_event_cases)
  fix n p assume "e \<in> set (started E i n p)"
  then show ?thesis by (rule started_iteration)
next
  fix p assume "e \<in> set (resumed E i p)"
  then show ?thesis by (simp add: resumed_iteration)
qed simp_all

lemma started_no_model_call: "e \<in> set (started E i n p) \<Longrightarrow> \<not> is_model_call e"
  by (erule started_elem) simp_all

lemma resumed_no_model_call: "e \<in> set (resumed E i p) \<Longrightarrow> \<not> is_model_call e"
  by (erule resumed_elem) simp

lemma dispatch_no_model_call: "filter is_model_call (dispatch E i toolCalls) = []"
proof -
  have "\<not> is_model_call e" if "e \<in> set (dispatch E i toolCalls)" for e
  proof (rule dispatch_event_cases[OF that])
    fix n p assume "e \<in> set (started E i n p)"
    then show ?thesis by (rule started_no_model_call)
  next
    fix p assume "e \<in> set (resumed E i p)"
    then show ?thesis by (rule resumed_no_model_call)
  qed simp_all
  then show ?thesis by (simp add: filter_empty_conv)
qed

lemma started_no_unshift: "Unshift m \<notin> set (started E i n p)"
  by (auto elim: started_elem)

lemma resumed_no_unshift: "Unshift m \<notin> set (resumed E i p)"
  by (auto elim: resumed_elem)

lemma dispatch_no_unshift: "Unshift m \<notin> set (dispatch E i toolCalls)"
proof
  assume h: "Unshift m \<in> set (dispatch E i toolCalls)"
  show False
  proof (rule dispatch_event_cases[OF h])
    fix n p assume "Unshift m \<in> set (started E i n p)"
    then show False by (simp add: started_no_unshift)
  next
    fix p assume "Unshift m \<in> set (resumed E i p)"
    then show False by (simp add: resumed_no_unshift)
  qed simp_all
qed

lemma started_not_stalled: "Stalled \<notin> set (started E i n p)"
  by (auto elim: started_elem)

lemma resumed_not_stalled: "Stalled \<notin> set (resumed E i p)"
  by (auto elim: resumed_elem)

lemma dispatch_stalls: "Stalled \<in> set (dispatch E i toolCalls) \<longleftrightarrow> hangs E i toolCalls"
proof
  assume h: "Stalled \<in> set (dispatch E i toolCalls)"
  show "hangs E i toolCalls"
  proof (rule dispatch_event_cases[OF h])
    fix n p assume "Stalled \<in> set (started E i n p)"
    then show ?thesis by (simp add: started_not_stalled)
  next
    fix p assume "Stalled \<in> set (resumed E i p)"
    then show ?thesis by (simp add: resumed_not_stalled)
  qed simp_all
next
  assume "hangs E i toolCalls"
  then show "Stalled \<in> set (dispatch E i toolCalls)"
    by (simp add: dispatch_def)
qed

lemma agent_loop_step:
  "i < maxLoops \<Longrightarrow>
   agent_loop E i msgs =
     Model_call i (apiMessages msgs) #
     (case chat_completions E i (apiMessages msgs) of
        Call_failed err \<Rightarrow> [Push (error_message err)]
      | Not_ok status statusText errorText \<Rightarrow>
          [Push (error_message
             (''API Error: '' @ digits status @ '' '' @ statusText @ [CHR 0x0A] @ errorText))]
      | No_response \<Rightarrow> [Stalled]
      | Reply message \<Rightarrow>
          Push message #
          (case tool_calls message of
             None \<Rightarrow> []
           | Some toolCalls \<Rightarrow>
               dispatch E i toolCalls @
               (if hangs E i toolCalls then []
                else agent_loop E (Suc i) (msgs @ message # pushed (dispatch E i toolCalls)))))"
  by (subst agent_loop.simps) simp

lemma agent_loop_calls_model:
  "i < maxLoops \<Longrightarrow> Model_call i (apiMessages msgs) \<in> set (agent_loop E i msgs)"
  by (simp add: agent_loop_step)

lemma agent_loop_limit: "\<not> i < maxLoops \<Longrightarrow> agent_loop E i msgs = [Push max_loop_message]"
  by (subst agent_loop.simps) simp

lemma agent_loop_dispatches:
  assumes "i < maxLoops" and "chat_completions E i (apiMessages msgs) = Reply m"
    and "tool_calls m = Some toolCalls"
  shows "agent_loop E i msgs =
           Model_call i (apiMessages msgs) # Push m # dispatch E i toolCalls @
           (if hangs E i toolCalls then []
            else agent_loop E (Suc i) (msgs @ m # pushed (dispatch E i toolCalls)))"
  using assms by (simp add: agent_loop_step)

lemma agent_loop_cases:
  assumes "i < maxLoops"
  obtains (ends) ev where "agent_loop E i msgs = [Model_call i (apiMessages msgs), ev]"
      "iteration_of ev = None" "\<not> is_model_call ev" "\<forall>m. ev \<noteq> Unshift m"
  | (answers) m where "agent_loop E i msgs = [Model_call i (apiMessages msgs), Push m]"
  | (stalls) m toolCalls where "chat_completions E i (apiMessages msgs) = Reply m"
      "tool_calls m = Some toolCalls" "hangs E i toolCalls"
      "agent_loop E i msgs = Model_call i (apiMessages msgs) # Push m # dispatch E i toolCalls"
  | (goes_on) m toolCalls where "chat_completions E i (apiMessages msgs) = Reply m"
      "tool_calls m = Some toolCalls" "\<not> hangs E i toolCalls"
      "agent_loop E i msgs =
         (Model_call i (apiMessages msgs) # Push m # dispatch E i toolCalls) @
         agent_loop E (Suc i) (msgs @ m # pushed (dispatch E i toolCalls))"
proof (cases "chat_completions E i (apiMessages msgs)")
  case (Call_failed err)
  with assms have "agent_loop E i msgs = [Model_call i (apiMessages msgs), Push (error_message err)]"
    by (simp add: agent_loop_step)
  then show ?thesis by (rule answers)
next
  case (Not_ok a b c)
  with assms have "agent_loop E i msgs =
      [Model_call i (apiMessages msgs),
       Push (error_message (''API Error: '' @ digits a @ '' '' @ b @ [CHR 0x0A] @ c))]"
    by (simp add: agent_loop_step)
  then show ?thesis by (rule answers)
next
  case No_response
  with assms have "agent_loop E i msgs = [Model_call i (apiMessages msgs), Stalled]"
    by (simp add: agent_loop_step)
  then show ?thesis by (rule ends) simp_all
next
  case (Reply m)
  show ?thesis
  proof (cases "tool_calls m")
    case None
    with assms Reply have "agent_loop E i msgs = [Model_call i (apiMessages msgs), Push m]"
      by (simp add: agent_loop_step)
    then show ?thesis by (rule answers)
  next
    case (Some tcs)
    show ?thesis
    proof (cases "hangs E i tcs")
      case True
      with assms Reply Some show ?thesis by (intro stalls[of m tcs]) (simp_all add: agent_loop_step)
    next
      case False
      with assms Reply Some show ?thesis by (intro goes_on[of m tcs]) (simp_all add: agent_loop_step)
    qed
  qed
qed

lemma model_calls_bounded:
  "length (filter is_model_call (agent_loop E i msgs)) \<le> maxLoops - i"
proof (induction E i msgs rule: agent_loop.induct)
  case (1 E i msgs)
  show ?case
  proof (cases "i < maxLoops")
    case False
    then show ?thesis by (simp add: agent_loop_limit)
  next
    case True
    then show ?thesis
    proof (cases rule: agent_loop_cases[of i E msgs])
      case (ends ev)
      with True show ?thesis by simp
    next
      case (answers m)
      with True show ?thesis by simp
    next
      case (stalls m tcs)
      with True show ?thesis by (simp add: dispatch_no_model_call)
    next
      case (goes_on m tcs)
      from "1.IH"[OF True goes_on(1,2,3)]
      have "length (filter is_model_call
              (agent_loop E (Suc i) (msgs @ m # pushed (dispatch E i tcs)))) \<le> maxLoops - Suc i" .
      with True goes_on(4) show ?thesis
        by (simp add: dispatch_no_model_call)
    qed
  qed
qed

lemma no_unshift_in_loop: "Unshift u \<notin> set (agent_loop E i msgs)"
proof (induction E i msgs rule: agent_loop.induct)
  case (1 E i msgs)
  show ?case
  proof (cases "i < maxLoops")
    case False
    then show ?thesis by (simp add: agent_loop_limit)
  next
    case True
    then show ?thesis
    proof (cases rule: agent_loop_cases[of i E msgs])
      case (ends ev)
      then show ?thesis by auto
    next
      case (answers m)
      then show ?thesis by simp
    next
      case (stalls m tcs)
      then show ?thesis by (simp add: dispatch_no_unshift)
    next
      case (goes_on m tcs)
      with "1.IH"[OF True goes_on(1,2,3)] show ?thesis by (simp add: dispatch_no_unshift)
    qed
  qed
qed

text \<open>
  A model call in the trace of the loop is the first event of a later run of the loop, which
  got the array as it then was.
\<close>

lemma agent_loop_reaches:
  "Model_call j w \<in> set (agent_loop E i msgs) \<Longrightarrow>
   \<exists>pre msgs'. agent_loop E i msgs = pre @ agent_loop E j msgs' \<and> w = apiMessages msgs' \<and>
      i \<le> j \<and> j < maxLoops \<and> length (filter is_model_call pre) = j - i \<and>
      (\<forall>e \<in> set pre. \<forall>k. iteration_of e = Some k \<longrightarrow> k < j) \<and>
      msgs' = msgs @ pushed pre"
proof (induction E i msgs rule: agent_loop.induct)
  case (1 E i msgs)
  show ?case
  proof (cases "i < maxLoops")
    case False
    with "1.prems" show ?thesis by (simp add: agent_loop_limit)
  next
    case True
    show ?thesis
    proof (cases "Model_call j w = Model_call i (apiMessages msgs)")
      case here: True
      then have "agent_loop E i msgs = [] @ agent_loop E j msgs" "w = apiMessages msgs" "j = i"
        by simp_all
      with True show ?thesis by (intro exI[of _ "[]"] exI[of _ msgs]) simp
    next
      case later: False
      from True show ?thesis
      proof (cases rule: agent_loop_cases[of i E msgs])
        case (ends ev)
        with later "1.prems" show ?thesis by (cases ev) auto
      next
        case (answers m)
        with later "1.prems" show ?thesis by simp
      next
        case (stalls m tcs)
        have "Model_call j w \<notin> set (dispatch E i tcs)"
          using dispatch_no_model_call[of E i tcs] by (auto simp: filter_empty_conv)
        with stalls(4) later "1.prems" show ?thesis by simp
      next
        case (goes_on m tcs)
        let ?d = "dispatch E i tcs"
        let ?msgs = "msgs @ m # pushed ?d"
        have "Model_call j w \<notin> set ?d"
          using dispatch_no_model_call[of E i tcs] by (auto simp: filter_empty_conv)
        with "1.prems" later goes_on(4) have "Model_call j w \<in> set (agent_loop E (Suc i) ?msgs)"
          by auto
        from "1.IH"[OF True goes_on(1,2,3) this]
        obtain pre msgs' where p: "agent_loop E (Suc i) ?msgs = pre @ agent_loop E j msgs'"
          "w = apiMessages msgs'" "Suc i \<le> j" "j < maxLoops"
          "length (filter is_model_call pre) = j - Suc i"
          "\<forall>e \<in> set pre. \<forall>k. iteration_of e = Some k \<longrightarrow> k < j"
          "msgs' = ?msgs @ pushed pre"
          by blast
        let ?pre = "(Model_call i (apiMessages msgs) # Push m # ?d) @ pre"
        have "agent_loop E i msgs = ?pre @ agent_loop E j msgs'"
          using goes_on(4) p(1) by simp
        moreover have "length (filter is_model_call ?pre) = j - i"
          using p(3,5) by (simp add: dispatch_no_model_call)
        moreover have "\<forall>e \<in> set ?pre. \<forall>k. iteration_of e = Some k \<longrightarrow> k < j"
          using p(3,6) by (auto dest!: dispatch_iteration)
        moreover have "msgs' = msgs @ pushed ?pre"
          using p(7) by simp
        ultimately show ?thesis using p(2,3,4) by (intro exI[of _ ?pre] exI[of _ msgs']) simp
      qed
    qed
  qed
qed

lemma replay_append: "replay msgs (xs @ ys) = replay (replay msgs xs) ys"
  by (induction msgs xs rule: replay.induct) simp_all

lemma replay_pushed: "(\<And>m. Unshift m \<notin> set evs) \<Longrightarrow> replay msgs evs = msgs @ pushed evs"
  by (induction msgs evs rule: replay.induct) auto

lemma submit_cases:
  "submit E question s = [] \<or>
   (\<exists>pre msgs. submit E question s = pre @ agent_loop E 0 msgs \<and> filter is_model_call pre = [] \<and>
      (\<forall>e \<in> set pre. iteration_of e = None) \<and> msgs = replay (messages s) pre)"
proof (cases "isProcessing s \<or> question = [] \<or> apiKeyInput E = []")
  case True
  then show ?thesis by (auto simp: submit_def)
next
  case False
  show ?thesis
  proof (cases "length (messages s @ [plain_message ''user'' question]) = 1")
    case True
    with False have "submit E question s =
        [Push (plain_message ''user'' question), Unshift system_message] @
        agent_loop E 0 (system_message # messages s @ [plain_message ''user'' question])"
      by (simp add: submit_def)
    then show ?thesis by (intro disjI2 exI conjI) (assumption, simp_all)
  next
    case single: False
    with False have "submit E question s =
        [Push (plain_message ''user'' question)] @
        agent_loop E 0 (messages s @ [plain_message ''user'' question])"
      by (simp add: submit_def)
    then show ?thesis by (intro disjI2 exI conjI) (assumption, simp_all)
  qed
qed

lemma submit_reaches:
  assumes "Model_call j w \<in> set (submit E question s)"
  shows "\<exists>pre msgs. submit E question s = pre @ agent_loop E j msgs \<and> w = apiMessages msgs \<and>
      j < maxLoops \<and> length (filter is_model_call pre) = j \<and>
      (\<forall>e \<in> set pre. \<forall>k. iteration_of e = Some k \<longrightarrow> k < j) \<and>
      msgs = replay (messages s) pre"
proof -
  from submit_cases[of E question s] assms
  obtain pre0 msgs0 where s0: "submit E question s = pre0 @ agent_loop E 0 msgs0"
    "filter is_model_call pre0 = []" "\<forall>e \<in> set pre0. iteration_of e = None"
    "msgs0 = replay (messages s) pre0"
    by auto
  have "Model_call j w \<notin> set pre0"
    using s0(3) by fastforce
  with assms s0(1) have "Model_call j w \<in> set (agent_loop E 0 msgs0)" by simp
  from agent_loop_reaches[OF this]
  obtain pre msgs where p: "agent_loop E 0 msgs0 = pre @ agent_loop E j msgs" "w = apiMessages msgs"
    "j < maxLoops" "length (filter is_model_call pre) = j - 0"
    "\<forall>e \<in> set pre. \<forall>k. iteration_of e = Some k \<longrightarrow> k < j"
    "msgs = msgs0 @ pushed pre"
    by blast
  have "Unshift m \<notin> set pre" for m
    using no_unshift_in_loop[of m E 0 msgs0] p(1) by simp
  then have "replay msgs0 pre = msgs0 @ pushed pre"
    by (rule replay_pushed)
  then have "msgs = replay (messages s) (pre0 @ pre)"
    using s0(4) p(6) by (simp add: replay_append)
  moreover
  have "submit E question s = (pre0 @ pre) @ agent_loop E j msgs"
    using s0(1) p(1) by simp
  moreover have "length (filter is_model_call (pre0 @ pre)) = j"
    using s0(2) p(4) by simp
  moreover have "\<forall>e \<in> set (pre0 @ pre). \<forall>k. iteration_of e = Some k \<longrightarrow> k < j"
    using s0(3) p(5) by auto
  ultimately show ?thesis using p(2,3) by blast
qed

section \<open>The example inputs, evaluated\<close>

lemma example_env_fields [simp]:
  "JSON_parse (example_env r) = example_parse"
  "chat_completions (example_env r) = r"
  "apiKeyInput (example_env r) = ''key''"
  "google_cse_key (example_env r) = None"
  "settles_at (example_env r) at = 10 - snd at"
  "run_code (example_env r) = example_code"
  "toISOString (example_env r) at = ''2025-01-01T00:00:00.000Z''"
  by (simp_all add: example_env_def)

lemma example_calls [simp]:
  "function_name call_code = ''execute_javascript''" "call_id call_code = ''call_1''"
  "function_name call_search = ''google_search''" "call_id call_search = ''call_2''"
  "function_name call_cut_off = ''execute_javascript''" "call_id call_cut_off = ''call_3''"
  "function_name call_null = ''execute_javascript''" "call_id call_null = ''call_4''"
  "function_name call_waits = ''execute_javascript''" "call_id call_waits = ''call_5''"
  "function_name call_opaque = ''execute_javascript''" "call_id call_opaque = ''call_6''"
  by (simp_all add: call_code_def call_search_def call_cut_off_def call_null_def call_waits_def
      call_opaque_def)

lemma example_parse_values [simp]:
  "example_parse (function_arguments call_code) = Inr (JObj [(''code'', JStr ''return 1'')])"
  "example_parse (function_arguments call_search) = Inr (JObj [(''query'', JStr ''tea'')])"
  "example_parse (function_arguments call_null) = Inr JNull"
  "example_parse (function_arguments call_cut_off) = Inl ''Unterminated string in JSON''"
  "example_parse (function_arguments call_waits) =
     Inr (JObj [(''code'', JStr ''return new Promise(() => {})'')])"
  "example_parse (function_arguments call_opaque) =
     Inr (JObj [(''code'', JStr ''throw {get message(){throw null}}'')])"
  by (simp_all add: example_parse_def call_code_def call_search_def call_null_def call_cut_off_def
      call_waits_def call_opaque_def)

lemma awaited_tools [simp]:
  "awaited ''execute_javascript''" "awaited ''google_search''" "awaited ''aipipe_workflow''"
  by (simp_all add: awaited_def)

text \<open>What the handlers of the example calls do.\<close>

lemma example_handlers:
  "call_tool (example_env r) at ''execute_javascript'' (JObj [(''code'', JStr ''return 1'')]) =
     ([], Inr (JSON_stringify_pretty (obj
        [(''success'', Some (JBool True)), (''result'', Some (JNum ''1'')),
         (''type'', Some (JStr ''number'')),
         (''executedAt'', Some (JStr ''2025-01-01T00:00:00.000Z''))])))"
  "call_tool (example_env r) at ''execute_javascript'' JNull =
     ([], Inl (Rejected (cannot_destructure ''code'')))"
  "call_tool (example_env r) at ''execute_javascript''
     (JObj [(''code'', JStr ''return new Promise(() => {})'')]) = ([], Inl Never_settles)"
  "call_tool (example_env r) at ''execute_javascript''
     (JObj [(''code'', JStr ''throw {get message(){throw null}}'')]) =
     ([], Inl (Rejected_unreadable
        (''Cannot read properties of null (reading '' @ [CHR 0x27] @ ''message'' @ [CHR 0x27] @ '')'')))"
  "call_tool (example_env r) at ''google_search'' (JObj [(''query'', JStr ''tea'')]) =
     ([], Inr config_required)"
  by (simp_all add: call_tool_def execute_javascript_def google_search_def example_code_def
      template_def falsy_def)

lemma example_results [simp]:
  "callback_result (example_env r) i (k, call_code) =
     Some (JSON_stringify_pretty (obj
        [(''success'', Some (JBool True)), (''result'', Some (JNum ''1'')),
         (''type'', Some (JStr ''number'')),
         (''executedAt'', Some (JStr ''2025-01-01T00:00:00.000Z''))]))"
  "callback_result (example_env r) i (k, call_null) =
     Some (JSON_stringify (JObj [(''error'', JStr (''Tool execution failed: '' @ cannot_destructure ''code''))]))"
  "callback_result (example_env r) i (k, call_search) = Some config_required"
  "callback_result (example_env r) i (k, call_cut_off) = None"
  "callback_result (example_env r) i (k, call_waits) = None"
  "callback_result (example_env r) i (k, call_opaque) = None"
  by (simp_all add: callback_result_def tool_result_def example_handlers)

lemma example_promises [simp]:
  "settled (example_env r) i (k, call_code) =
     Fulfilled (toolResultMessage call_code (JSON_stringify_pretty (obj
        [(''success'', Some (JBool True)), (''result'', Some (JNum ''1'')),
         (''type'', Some (JStr ''number'')),
         (''executedAt'', Some (JStr ''2025-01-01T00:00:00.000Z''))])))"
  "settled (example_env r) i (k, call_null) =
     Fulfilled (toolResultMessage call_null
       (JSON_stringify (JObj [(''error'', JStr (''Tool execution failed: '' @ cannot_destructure ''code''))])))"
  "settled (example_env r) i (k, call_search) = Fulfilled (toolResultMessage call_search config_required)"
  "settled (example_env r) i (k, call_cut_off) = Was_rejected ''Unterminated string in JSON''"
  "settled (example_env r) i (k, call_waits) = Still_pending"
  "settled (example_env r) i (k, call_opaque) =
     Was_rejected (''Cannot read properties of null (reading '' @ [CHR 0x27] @ ''message'' @ [CHR 0x27] @ '')'')"
  by (simp_all add: settled_def tool_result_def example_handlers)

lemma example_freezes [simp]:
  "\<not> freezes (example_env r) i (k, call_code)"
  "\<not> freezes (example_env r) i (k, call_null)"
  "\<not> freezes (example_env r) i (k, call_search)"
  "\<not> freezes (example_env r) i (k, call_cut_off)"
  "\<not> freezes (example_env r) i (k, call_waits)"
  "\<not> freezes (example_env r) i (k, call_opaque)"
  by (simp_all add: freezes_def tool_result_def example_handlers)

lemma example_started [simp]:
  "started (example_env r) i n (k, call_code) =
     [Push (displayMessage k n ''execute_javascript'' (JObj [(''code'', JStr ''return 1'')])),
      Invoke (i, k) ''execute_javascript'' (JObj [(''code'', JStr ''return 1'')])]"
  "started (example_env r) i n (k, call_null) =
     [Push (displayMessage k n ''execute_javascript'' JNull),
      Invoke (i, k) ''execute_javascript'' JNull]"
  "started (example_env r) i n (k, call_search) =
     [Push (displayMessage k n ''google_search'' (JObj [(''query'', JStr ''tea'')])),
      Invoke (i, k) ''google_search'' (JObj [(''query'', JStr ''tea'')])]"
  "started (example_env r) i n (k, call_cut_off) = []"
  "started (example_env r) i n (k, call_waits) =
     [Push (displayMessage k n ''execute_javascript''
              (JObj [(''code'', JStr ''return new Promise(() => {})'')])),
      Invoke (i, k) ''execute_javascript'' (JObj [(''code'', JStr ''return new Promise(() => {})'')])]"
  "started (example_env r) i n (k, call_opaque) =
     [Push (displayMessage k n ''execute_javascript''
              (JObj [(''code'', JStr ''throw {get message(){throw null}}'')])),
      Invoke (i, k) ''execute_javascript''
        (JObj [(''code'', JStr ''throw {get message(){throw null}}'')])]"
  by (simp_all add: started_events example_handlers)

lemma example_resumed [simp]:
  "resumed (example_env r) i (k, call_code) =
     [Push (displayResult k ''execute_javascript'' (JSON_stringify_pretty (obj
        [(''success'', Some (JBool True)), (''result'', Some (JNum ''1'')),
         (''type'', Some (JStr ''number'')),
         (''executedAt'', Some (JStr ''2025-01-01T00:00:00.000Z''))])))]"
  "resumed (example_env r) i (k, call_null) =
     [Push (displayResult k ''execute_javascript''
        (JSON_stringify (JObj [(''error'', JStr (''Tool execution failed: '' @ cannot_destructure ''code''))])))]"
  "resumed (example_env r) i (k, call_search) = [Push (displayResult k ''google_search'' config_required)]"
  "resumed (example_env r) i (k, call_cut_off) = []"
  "resumed (example_env r) i (k, call_waits) = []"
  "resumed (example_env r) i (k, call_opaque) = []"
  by (simp_all add: resumed_events)

text \<open>The texts of two entries, written out.\<close>

lemma example_payload_text:
  "JSON_stringify_pretty (obj
     [(''success'', Some (JBool True)), (''result'', Some (JNum ''1'')),
      (''type'', Some (JStr ''number'')),
      (''executedAt'', Some (JStr ''2025-01-01T00:00:00.000Z''))]) =
   ''{'' @ [CHR 0x0A] @
   ''  \"success\": true,'' @ [CHR 0x0A] @
   ''  \"result\": 1,'' @ [CHR 0x0A] @
   ''  \"type\": \"number\",'' @ [CHR 0x0A] @
   ''  \"executedAt\": \"2025-01-01T00:00:00.000Z\"'' @ [CHR 0x0A] @
   ''}''"
  by code_simp

lemma example_announcement_text:
  "content (displayMessage 0 2 ''execute_javascript'' (JObj [(''code'', JStr ''return 1'')])) =
   Some ([CHR 0xF0, CHR 0x9F, CHR 0x94, CHR 0xA7] @
         '' **Calling tool: execute_javascript** (1/2)'' @ [CHR 0x0A] @
         ''```json'' @ [CHR 0x0A] @
         ''{'' @ [CHR 0x0A] @
         ''  \"code\": \"return 1\"'' @ [CHR 0x0A] @
         ''}'' @ [CHR 0x0A] @
         ''```'')"
  by code_simp

lemma not_display_only [simp]:
  "\<not> isDisplayOnly (plain_message r c)"
  "\<not> isDisplayOnly system_message"
  "\<not> isDisplayOnly (asks cs)"
  "\<not> isDisplayOnly (error_message e)"
  "\<not> isDisplayOnly max_loop_message"
  by (simp_all add: plain_message_def system_message_def asks_def error_message_def
      max_loop_message_def)

lemma tool_calls_asks [simp]: "tool_calls (asks cs) = Some cs"
  by (simp add: asks_def)

lemma config_required_text:
  "config_required =
     ''{\"error\":\"Google Search API Key or CX ID is missing. Please configure them in the sidebar.\",\"configRequired\":true}''"
  by code_simp

section \<open>Example cycles\<close>

lemma entry_names [simp]:
  "name (plain_message r c) = None"
  "name system_message = None"
  "name (asks cs) = None"
  "name max_loop_message = Some ''error''"
  "name (displayMessage k n f a) = Some ''tool-call''"
  "name (displayResult k f res) = Some f"
  "name (toolResultMessage tc res) = Some (function_name tc)"
  by (simp_all add: plain_message_def system_message_def asks_def max_loop_message_def
      displayMessage_def displayResult_def toolResultMessage_def)

lemma example_dispatch_code:
  "dispatch (example_env r) i [call_code] =
     [Push (displayMessage 0 1 ''execute_javascript'' (JObj [(''code'', JStr ''return 1'')])),
      Invoke (i, 0) ''execute_javascript'' (JObj [(''code'', JStr ''return 1'')]),
      Push (displayResult 0 ''execute_javascript'' (JSON_stringify_pretty (obj
        [(''success'', Some (JBool True)), (''result'', Some (JNum ''1'')),
         (''type'', Some (JStr ''number'')),
         (''executedAt'', Some (JStr ''2025-01-01T00:00:00.000Z''))]))),
      Push (toolResultMessage call_code (JSON_stringify_pretty (obj
        [(''success'', Some (JBool True)), (''result'', Some (JNum ''1'')),
         (''type'', Some (JStr ''number'')),
         (''executedAt'', Some (JStr ''2025-01-01T00:00:00.000Z''))])))]"
  by (simp add: dispatch_def hangs_def actualToolResults_def toolResults_def)

lemma example_hangs_code [simp]: "\<not> hangs (example_env r) i [call_code]"
  by (simp add: hangs_def)

lemma example_dispatch_waits:
  "dispatch (example_env r) i [call_waits] =
     [Push (displayMessage 0 1 ''execute_javascript''
              (JObj [(''code'', JStr ''return new Promise(() => {})'')])),
      Invoke (i, 0) ''execute_javascript'' (JObj [(''code'', JStr ''return new Promise(() => {})'')]),
      Stalled]"
  by (simp add: dispatch_def hangs_def)

lemma example_hangs_waits [simp]: "hangs (example_env r) i [call_waits]"
  by (simp add: hangs_def)

text \<open>
  A cycle in which the model asks for \<open>call_code\<close> in each of its first \<open>n\<close> replies: the
  trace up to the next model call, and the array then.
\<close>

lemma example_round:
  assumes "i < 10" and "r i (apiMessages msgs) = Reply (asks [call_code])"
  shows "agent_loop (example_env r) i msgs =
     (Model_call i (apiMessages msgs) # Push (asks [call_code]) # dispatch (example_env r) i [call_code]) @
     agent_loop (example_env r) (Suc i)
       (msgs @ [asks [call_code],
                displayMessage 0 1 ''execute_javascript'' (JObj [(''code'', JStr ''return 1'')]),
                displayResult 0 ''execute_javascript'' (JSON_stringify_pretty (obj
                  [(''success'', Some (JBool True)), (''result'', Some (JNum ''1'')),
                   (''type'', Some (JStr ''number'')),
                   (''executedAt'', Some (JStr ''2025-01-01T00:00:00.000Z''))])),
                toolResultMessage call_code (JSON_stringify_pretty (obj
                  [(''success'', Some (JBool True)), (''result'', Some (JNum ''1'')),
                   (''type'', Some (JStr ''number'')),
                   (''executedAt'', Some (JStr ''2025-01-01T00:00:00.000Z''))]))])"
proof -
  have "agent_loop (example_env r) i msgs =
      Model_call i (apiMessages msgs) # Push (asks [call_code]) # dispatch (example_env r) i [call_code] @
      agent_loop (example_env r) (Suc i)
        (msgs @ asks [call_code] # pushed (dispatch (example_env r) i [call_code]))"
    using assms by (subst agent_loop_step) (simp_all add: maxLoops_def)
  then show ?thesis
    by (simp add: example_dispatch_code)
qed

lemma example_rounds:
  assumes "\<And>i w. i < n \<Longrightarrow> r i w = Reply (asks [call_code])" and "n \<le> 10"
  shows "\<exists>pre. agent_loop (example_env r) 0 msgs =
           pre @ agent_loop (example_env r) n (msgs @ concat (replicate n round_entries)) \<and>
         length (filter is_model_call pre) = n \<and> Stalled \<notin> set pre \<and>
         (\<forall>m. Push m \<in> set pre \<longrightarrow> name m \<noteq> Some ''error'')"
  using assms
proof (induction n)
  case 0
  show ?case by (intro exI[of _ "[]"]) simp
next
  case (Suc n)
  from Suc.IH Suc.prems obtain pre where
    pre: "agent_loop (example_env r) 0 msgs =
            pre @ agent_loop (example_env r) n (msgs @ concat (replicate n round_entries))"
    and n: "length (filter is_model_call pre) = n" "Stalled \<notin> set pre"
      "\<forall>m. Push m \<in> set pre \<longrightarrow> name m \<noteq> Some ''error''"
    by auto
  let ?msgs = "msgs @ concat (replicate n round_entries)"
  let ?round = "Model_call n (apiMessages ?msgs) # Push (asks [call_code]) #
                dispatch (example_env r) n [call_code]"
  have "replicate (Suc n) round_entries = replicate n round_entries @ [round_entries]"
    by (simp add: replicate_append_same)
  then have "concat (replicate (Suc n) round_entries) = concat (replicate n round_entries @ [round_entries])"
    by (simp only:)
  then have c: "concat (replicate (Suc n) round_entries) = concat (replicate n round_entries) @ round_entries"
    by simp
  have "agent_loop (example_env r) n ?msgs =
      ?round @ agent_loop (example_env r) (Suc n) (?msgs @ round_entries)"
    unfolding round_entries_def using Suc.prems by (intro example_round) simp_all
  with pre have "agent_loop (example_env r) 0 msgs =
      (pre @ ?round) @ agent_loop (example_env r) (Suc n) (msgs @ concat (replicate (Suc n) round_entries))"
    by (simp only: c append_assoc)
  moreover have "length (filter is_model_call (pre @ ?round)) = Suc n"
    using n(1) by (simp add: dispatch_no_model_call)
  moreover have "Stalled \<notin> set (pre @ ?round)"
    using n(2) by (simp add: dispatch_stalls)
  moreover have "\<forall>m. Push m \<in> set (pre @ ?round) \<longrightarrow> name m \<noteq> Some ''error''"
    using n(3) by (auto simp: example_dispatch_code)
  ultimately show ?case by blast
qed

lemma example_wire_rounds:
  "apiMessages ([system_message, plain_message ''user'' ''hi''] @ concat (replicate n round_entries)) =
   [system_message, plain_message ''user'' ''hi''] @
   concat (replicate n
     [asks [call_code],
      toolResultMessage call_code (JSON_stringify_pretty (obj
        [(''success'', Some (JBool True)), (''result'', Some (JNum ''1'')),
         (''type'', Some (JStr ''number'')),
         (''executedAt'', Some (JStr ''2025-01-01T00:00:00.000Z''))]))])"
  by (induction n) (simp_all add: apiMessages_def round_entries_def)

text \<open>
  A fresh session and the question \<^verbatim>\<open>hi\<close>, with a model that asks for \<open>call_code\<close> in its
  first nine replies: the trace up to the tenth model call.
\<close>

lemma example_nine_rounds:
  assumes "\<And>i w. i < 9 \<Longrightarrow> r i w = Reply (asks [call_code])"
  shows "\<exists>pre msgs. submit (example_env r) ''hi'' fresh = pre @ agent_loop (example_env r) 9 msgs \<and>
           apiMessages msgs = example_wire \<and> Stalled \<notin> set pre \<and> Push max_loop_message \<notin> set pre"
proof -
  from example_rounds[of 9 r "[system_message, plain_message ''user'' ''hi'']"] assms
  obtain pre where
    pre: "agent_loop (example_env r) 0 [system_message, plain_message ''user'' ''hi''] =
            pre @ agent_loop (example_env r) 9
              ([system_message, plain_message ''user'' ''hi''] @ concat (replicate 9 round_entries))"
    and n: "Stalled \<notin> set pre" "\<forall>m. Push m \<in> set pre \<longrightarrow> name m \<noteq> Some ''error''"
    by auto
  let ?pre = "Push (plain_message ''user'' ''hi'') # Unshift system_message # pre"
  have "submit (example_env r) ''hi'' fresh =
      Push (plain_message ''user'' ''hi'') # Unshift system_message #
      agent_loop (example_env r) 0 [system_message, plain_message ''user'' ''hi'']"
    by (simp add: submit_def fresh_def)
  with pre have "submit (example_env r) ''hi'' fresh =
      ?pre @ agent_loop (example_env r) 9
        ([system_message, plain_message ''user'' ''hi''] @ concat (replicate 9 round_entries))"
    by simp
  moreover have "apiMessages ([system_message, plain_message ''user'' ''hi''] @
      concat (replicate 9 round_entries)) = example_wire"
    unfolding example_wire_def by (rule example_wire_rounds)
  moreover have "Stalled \<notin> set ?pre"
    using n(1) by simp
  moreover have "Push max_loop_message \<notin> set ?pre"
  proof
    assume "Push max_loop_message \<in> set ?pre"
    then have "Push max_loop_message = Push (plain_message ''user'' ''hi'') \<or> Push max_loop_message \<in> set pre"
      by simp
    then show False
    proof
      assume "Push max_loop_message = Push (plain_message ''user'' ''hi'')"
      then have "name max_loop_message = name (plain_message ''user'' ''hi'')" by simp
      then show False by simp
    next
      assume "Push max_loop_message \<in> set pre"
      with n(2) show False by auto
    qed
  qed
  ultimately show ?thesis by blast
qed

lemma example_first_cycle:
  "submit (example_env server_error) ''hi'' fresh =
     [Push (plain_message ''user'' ''hi''), Unshift system_message,
      Model_call 0 [system_message, plain_message ''user'' ''hi''],
      Push (error_message (''API Error: '' @ digits 500 @ '' '' @ ''Internal Server Error'' @
                           [CHR 0x0A] @ ''upstream down''))]"
  by (simp add: submit_def fresh_def agent_loop_step maxLoops_def server_error_def apiMessages_def)

lemma apiMessages_no_display_only: "filter isDisplayOnly (apiMessages msgs) = []"
  by (simp add: apiMessages_def filter_empty_conv)

lemma example_after_first_cycle:
  "messages (after_submit (example_env server_error) ''hi'' fresh) =
     [system_message, plain_message ''user'' ''hi'',
      error_message (''API Error: '' @ digits 500 @ '' '' @ ''Internal Server Error'' @
                     [CHR 0x0A] @ ''upstream down'')]"
  by (simp add: after_submit_def example_first_cycle) (simp add: fresh_def)

lemma max_loop_message_entry:
  "max_loop_message =
     \<lparr>role = ''assistant'', name = Some ''error'',
      content = Some ([CHR 0xE2, CHR 0x9A, CHR 0xA0, CHR 0xEF, CHR 0xB8, CHR 0x8F] @
                      '' Agent reached maximum loop limit. The task may not be fully complete.''),
      tool_calls = None, tool_call_id = None, isDisplayOnly = False, toolCallIndex = None\<rparr>"
  by (simp add: max_loop_message_def plain_message_def)

section \<open>Lemmas about the order of events in a dispatch\<close>

lemma about_call_unique: "about_call j e \<Longrightarrow> about_call k e \<Longrightarrow> j = k"
  by (cases e) auto

lemma unknown_tool_result:
  "\<not> awaited f \<Longrightarrow>
   tool_result E at f args = Result (JSON_stringify (JObj [(''error'', JStr (''Unknown tool: '' @ f))]))"
  by (simp add: tool_result_def call_tool_def awaited_def)

lemma wire_in_actual:
  assumes "j < length toolCalls" and "callback_result E i (j, toolCalls ! j) = Some r"
  shows "toolResultMessage (toolCalls ! j) r \<in> set (actualToolResults E i toolCalls)"
proof -
  have "(j, toolCalls ! j) \<in> set (enumerate 0 toolCalls)"
    using assms(1) by (rule in_enumerate)
  then show ?thesis
    using assms(2) by (force simp: actualToolResults_eq List.map_filter_def)
qed

text \<open>The synchronous parts of the callbacks before position \<open>k\<close> have nothing about \<open>k\<close>.\<close>

lemma started_before_quiet:
  "filter (about_call k) (concat (map (started E i n) (enumerate 0 (take k toolCalls)))) = []"
proof -
  have "\<not> about_call k e"
    if "e \<in> set (concat (map (started E i n) (enumerate 0 (take k toolCalls))))" for e
  proof -
    from that obtain p where p: "p \<in> set (enumerate 0 (take k toolCalls))" "e \<in> set (started E i n p)"
      by auto
    from fst_in_enumerate[OF p(1)] have "fst p < k" by simp
    moreover have "about_call (fst p) e" using p(2) by (rule started_about)
    ultimately show ?thesis using about_call_unique by blast
  qed
  then show ?thesis by (simp only: filter_empty_conv) blast
qed

lemma started_part_no_wire:
  "filter wire_push (concat (map (started E i n) ps)) = []"
  by (auto simp: filter_empty_conv dest: started_no_wire)

text \<open>
  The trace of a dispatch around the callback of the call at position \<open>k\<close>, when the
  dispatch gets that far.
\<close>

lemma dispatch_around:
  assumes "k < length toolCalls" and "reached E i toolCalls k"
  shows "\<exists>later.
     dispatch E i toolCalls =
       concat (map (started E i (length toolCalls)) (enumerate 0 (take k toolCalls))) @
       started E i (length toolCalls) (k, toolCalls ! k) @ later \<and>
     (\<not> list_ex (freezes E i) (enumerate 0 toolCalls) \<longrightarrow>
        (\<exists>others. later = others @
           concat (map (resumed E i) (sort_key (\<lambda>p. settles_at E (i, fst p)) (enumerate 0 toolCalls))) @
           (if hangs E i toolCalls then [Stalled] else map Push (actualToolResults E i toolCalls))))"
proof -
  let ?n = "length toolCalls"
  let ?A = "enumerate 0 (take k toolCalls)"
  let ?B = "enumerate (Suc k) (drop (Suc k) toolCalls)"
  let ?p = "(k, toolCalls ! k)"
  let ?S = "if freezes E i ?p then [] else run_started E i ?n ?B"
  have e: "enumerate 0 toolCalls = ?A @ ?p # ?B"
    using enumerate_split[OF assms(1), of 0] by simp
  have "\<not> list_ex (freezes E i) ?A"
    using assms(2) by (simp add: reached_def take_enumerate)
  then have "run_started E i ?n (?A @ ?p # ?B) =
      concat (map (started E i ?n) ?A) @ run_started E i ?n (?p # ?B)"
    by (rule run_started_append)
  then have r: "run_started E i ?n (enumerate 0 toolCalls) =
      concat (map (started E i ?n) ?A) @ started E i ?n ?p @ ?S"
    by (simp add: e[symmetric])
  show ?thesis
  proof (cases "list_ex (freezes E i) (enumerate 0 toolCalls)")
    case True
    then have "dispatch E i toolCalls =
        concat (map (started E i ?n) ?A) @ started E i ?n ?p @ (?S @ [Stalled])"
      by (simp add: dispatch_def r)
    with True show ?thesis by blast
  next
    case False
    let ?T = "concat (map (resumed E i) (sort_key (\<lambda>p. settles_at E (i, fst p)) (enumerate 0 toolCalls))) @
           (if hangs E i toolCalls then [Stalled] else map Push (actualToolResults E i toolCalls))"
    from False have "dispatch E i toolCalls =
        concat (map (started E i ?n) ?A) @ started E i ?n ?p @ (?S @ ?T)"
      by (simp add: dispatch_def r)
    then show ?thesis by blast
  qed
qed

text \<open>Where the presentation result of an awaited call is, among the resumed callbacks.\<close>

lemma resumed_split:
  assumes "k < length toolCalls" and "awaited (function_name (toolCalls ! k))"
    and "callback_result E i (k, toolCalls ! k) = Some r"
  shows "\<exists>before after.
     concat (map (resumed E i) (sort_key (\<lambda>p. settles_at E (i, fst p)) (enumerate 0 toolCalls))) =
       before @ Push (displayResult k (function_name (toolCalls ! k)) r) # after"
proof -
  have "(k, toolCalls ! k) \<in> set (sort_key (\<lambda>p. settles_at E (i, fst p)) (enumerate 0 toolCalls))"
    using assms(1) by (simp add: in_enumerate)
  then obtain s1 s2 where
    "sort_key (\<lambda>p. settles_at E (i, fst p)) (enumerate 0 toolCalls) = s1 @ (k, toolCalls ! k) # s2"
    by (meson split_list)
  moreover have "resumed E i (k, toolCalls ! k) = [Push (displayResult k (function_name (toolCalls ! k)) r)]"
    using assms(2,3) by (simp add: resumed_events)
  ultimately have "concat (map (resumed E i)
      (sort_key (\<lambda>p. settles_at E (i, fst p)) (enumerate 0 toolCalls))) =
      concat (map (resumed E i) s1) @
      Push (displayResult k (function_name (toolCalls ! k)) r) # concat (map (resumed E i) s2)"
    by simp
  then show ?thesis by blast
qed

lemma dispatch_ends_stalled: "hangs E i toolCalls \<Longrightarrow> last (dispatch E i toolCalls) = Stalled"
  by (simp add: dispatch_def)

lemma callback_result_returned:
  "JSON_parse E (function_arguments (snd p)) = Inr args \<Longrightarrow>
   snd (call_tool E (i, fst p) (function_name (snd p)) args) = Inr r \<Longrightarrow>
   callback_result E i p = Some r"
  by (simp add: callback_result_def tool_result_def)

lemma callback_result_rejected:
  "JSON_parse E (function_arguments (snd p)) = Inr args \<Longrightarrow>
   snd (call_tool E (i, fst p) (function_name (snd p)) args) = Inl (Rejected err) \<Longrightarrow>
   callback_result E i p =
     Some (JSON_stringify (JObj [(''error'', JStr (''Tool execution failed: '' @ err))]))"
  by (simp add: callback_result_def tool_result_def)

section \<open>Lemmas about the presentation results\<close>

lemma callback_result_unknown:
  "JSON_parse E (function_arguments (snd p)) = Inr args \<Longrightarrow> \<not> awaited (function_name (snd p)) \<Longrightarrow>
   callback_result E i p =
     Some (JSON_stringify (JObj [(''error'', JStr (''Unknown tool: '' @ function_name (snd p)))]))"
  by (simp add: callback_result_def unknown_tool_result)

lemma started_presentation:
  assumes "parses E (snd p)"
  shows "map toolCallIndex (filter presentation_result (pushed (started E i n p))) =
     (if awaited (function_name (snd p)) then [] else [Some (fst p)])"
proof -
  from assms obtain args where a: "JSON_parse E (function_arguments (snd p)) = Inr args"
    by (auto simp: parses_def split: sum.splits)
  show ?thesis
  proof (cases "awaited (function_name (snd p))")
    case True
    with a show ?thesis by (simp add: started_events presentation_result_def)
  next
    case False
    with a callback_result_unknown[OF a False, of i] show ?thesis
      by (simp add: started_events presentation_result_def)
  qed
qed

lemma resumed_presentation:
  "map toolCallIndex (filter presentation_result (pushed (resumed E i p))) =
     (if awaited (function_name (snd p)) \<and> callback_result E i p \<noteq> None then [Some (fst p)] else [])"
  by (cases "callback_result E i p") (simp_all add: resumed_events presentation_result_def)

lemma started_part_results:
  "list_all (\<lambda>p. parses E (snd p)) ps \<Longrightarrow>
   map toolCallIndex (filter presentation_result (pushed (concat (map (started E i n) ps)))) =
   map (\<lambda>p. Some (fst p)) (filter (\<lambda>p. \<not> awaited (function_name (snd p))) ps)"
  by (induction ps) (simp_all add: started_presentation)

lemma resumed_part_results:
  "map toolCallIndex (filter presentation_result (pushed (concat (map (resumed E i) ps)))) =
   map (\<lambda>p. Some (fst p))
     (filter (\<lambda>p. callback_result E i p \<noteq> None) (filter (\<lambda>p. awaited (function_name (snd p))) ps))"
  by (induction ps) (simp_all add: resumed_presentation)

lemma list_all_enumerate:
  "list_all P xs \<Longrightarrow> list_all (\<lambda>p. P (snd p)) (enumerate n xs)"
  by (induction xs arbitrary: n) simp_all

lemma actual_no_presentation: "filter presentation_result (actualToolResults E i toolCalls) = []"
  by (auto simp: filter_empty_conv presentation_result_def dest: actual_not_display_only)

lemma map_filter_ids:
  "map tool_call_id (List.map_filter (\<lambda>p. map_option (toolResultMessage (snd p)) (c p)) ps) =
   map (\<lambda>p. Some (call_id (snd p))) (filter (\<lambda>p. c p \<noteq> None) ps)"
  by (induction ps) (auto simp: List.map_filter_simps split: option.splits)

section \<open>How many results a dispatch appends\<close>

text \<open>
  Claim C1 does not hold for the code: a request whose callback ends in an exception gets
  no result at all. Of the three requests below, all \<^verbatim>\<open>execute_javascript\<close>, the first
  returns 1; the arguments of the second are cut off, so \<^verbatim>\<open>JSON.parse\<close>, which is outside
  the \<^verbatim>\<open>try\<close>, throws; the third throws an object whose \<^verbatim>\<open>message\<close> cannot be read,
  so the handler rejects with null and the \<^verbatim>\<open>catch\<close> block of the dispatch throws when
  it reads \<^verbatim>\<open>error.message\<close>. All three promises settle, two of them rejected, and the
  dispatch appends one wire result and one presentation result, both for the first request.
\<close>

theorem rejected_callbacks_leave_no_result:
  "length [call_code, call_cut_off, call_opaque] = 3 \<and>
   map is_rejected (toolResults (example_env server_error) 0 [call_code, call_cut_off, call_opaque]) =
     [False, True, True] \<and>
   \<not> hangs (example_env server_error) 0 [call_code, call_cut_off, call_opaque] \<and>
   length (filter wire_result
     (pushed (dispatch (example_env server_error) 0 [call_code, call_cut_off, call_opaque]))) = 1 \<and>
   length (filter presentation_result
     (pushed (dispatch (example_env server_error) 0 [call_code, call_cut_off, call_opaque]))) = 1 \<and>
   map tool_call_id (filter wire_result
     (pushed (dispatch (example_env server_error) 0 [call_code, call_cut_off, call_opaque]))) =
     [Some ''call_1''] \<and>
   map toolCallIndex (filter presentation_result
     (pushed (dispatch (example_env server_error) 0 [call_code, call_cut_off, call_opaque]))) =
     [Some 0]"
proof -
  let ?E = "example_env server_error"
  let ?cs = "[call_code, call_cut_off, call_opaque]"
  have nh: "\<not> hangs ?E 0 ?cs"
    by (simp add: hangs_def)
  have r: "map is_rejected (toolResults ?E 0 ?cs) = [False, True, True]"
    by (simp add: toolResults_def)
  have w: "filter wire_result (pushed (dispatch ?E 0 ?cs)) =
      [toolResultMessage call_code (JSON_stringify_pretty (obj
        [(''success'', Some (JBool True)), (''result'', Some (JNum ''1'')),
         (''type'', Some (JStr ''number'')),
         (''executedAt'', Some (JStr ''2025-01-01T00:00:00.000Z''))]))]"
    using nh by (simp add: wire_results_of_dispatch actualToolResults_eq List.map_filter_simps)
  have "pushed (dispatch ?E 0 ?cs) =
      [displayMessage 0 3 ''execute_javascript'' (JObj [(''code'', JStr ''return 1'')]),
       displayMessage 2 3 ''execute_javascript'' (JObj [(''code'', JStr ''throw {get message(){throw null}}'')]),
       displayResult 0 ''execute_javascript'' (JSON_stringify_pretty (obj
        [(''success'', Some (JBool True)), (''result'', Some (JNum ''1'')),
         (''type'', Some (JStr ''number'')),
         (''executedAt'', Some (JStr ''2025-01-01T00:00:00.000Z''))])),
       toolResultMessage call_code (JSON_stringify_pretty (obj
        [(''success'', Some (JBool True)), (''result'', Some (JNum ''1'')),
         (''type'', Some (JStr ''number'')),
         (''executedAt'', Some (JStr ''2025-01-01T00:00:00.000Z''))]))]"
    using nh by (simp add: dispatch_def actualToolResults_eq List.map_filter_simps eval_nat_numeral)
  then have p: "filter presentation_result (pushed (dispatch ?E 0 ?cs)) =
      [displayResult 0 ''execute_javascript'' (JSON_stringify_pretty (obj
        [(''success'', Some (JBool True)), (''result'', Some (JNum ''1'')),
         (''type'', Some (JStr ''number'')),
         (''executedAt'', Some (JStr ''2025-01-01T00:00:00.000Z''))]))]"
    by (simp add: presentation_result_def)
  show ?thesis
    using nh r by (simp add: w p)
qed

section \<open>A tool call whose arguments do not parse\<close>

text \<open>
  Claim C2 does not hold for the code: a parse failure is not caught and is not reported
  as an error result. \<^verbatim>\<open>JSON.parse\<close> is called outside the \<^verbatim>\<open>try\<close> that turns the
  failure of a handler into an error result, so the promise of the request is rejected and
  the filter on \<^verbatim>\<open>fulfilled\<close> removes it. In the dispatch of the two requests below,
  the first with arguments that are cut off, every event belongs to the second: the
  request that failed has no announcement, no presentation result and no wire result, and
  no entry with its id \<^verbatim>\<open>call_3\<close> is appended. The second request is dispatched as
  usual, and the loop goes on: the next model call is sent the assistant turn with both
  requests and one tool result.
\<close>

theorem unparsed_call_gets_no_error_result:
  "\<not> parses (example_env (always_asks [call_cut_off, call_code])) call_cut_off \<and>
   is_rejected (toolResults (example_env (always_asks [call_cut_off, call_code])) 0 [call_cut_off, call_code] ! 0) \<and>
   dispatch (example_env (always_asks [call_cut_off, call_code])) 0 [call_cut_off, call_code] =
     [Push (displayMessage 1 2 ''execute_javascript'' (JObj [(''code'', JStr ''return 1'')])),
      Invoke (0, 1) ''execute_javascript'' (JObj [(''code'', JStr ''return 1'')]),
      Push (displayResult 1 ''execute_javascript'' (JSON_stringify_pretty (obj
        [(''success'', Some (JBool True)), (''result'', Some (JNum ''1'')),
         (''type'', Some (JStr ''number'')),
         (''executedAt'', Some (JStr ''2025-01-01T00:00:00.000Z''))]))),
      Push (toolResultMessage call_code (JSON_stringify_pretty (obj
        [(''success'', Some (JBool True)), (''result'', Some (JNum ''1'')),
         (''type'', Some (JStr ''number'')),
         (''executedAt'', Some (JStr ''2025-01-01T00:00:00.000Z''))])))] \<and>
   map tool_call_id (pushed (dispatch (example_env (always_asks [call_cut_off, call_code])) 0
     [call_cut_off, call_code])) = [None, None, Some ''call_1''] \<and>
   map toolCallIndex (pushed (dispatch (example_env (always_asks [call_cut_off, call_code])) 0
     [call_cut_off, call_code])) = [Some 1, Some 1, None] \<and>
   Model_call 1
     [asks [call_cut_off, call_code],
      toolResultMessage call_code (JSON_stringify_pretty (obj
        [(''success'', Some (JBool True)), (''result'', Some (JNum ''1'')),
         (''type'', Some (JStr ''number'')),
         (''executedAt'', Some (JStr ''2025-01-01T00:00:00.000Z''))]))]
     \<in> set (agent_loop (example_env (always_asks [call_cut_off, call_code])) 0 [])"
proof -
  let ?E = "example_env (always_asks [call_cut_off, call_code])"
  let ?cs = "[call_cut_off, call_code]"
  let ?r = "JSON_stringify_pretty (obj
        [(''success'', Some (JBool True)), (''result'', Some (JNum ''1'')),
         (''type'', Some (JStr ''number'')),
         (''executedAt'', Some (JStr ''2025-01-01T00:00:00.000Z''))])"
  have nh: "\<not> hangs ?E 0 ?cs"
    by (simp add: hangs_def)
  have d: "dispatch ?E 0 ?cs =
     [Push (displayMessage 1 2 ''execute_javascript'' (JObj [(''code'', JStr ''return 1'')])),
      Invoke (0, 1) ''execute_javascript'' (JObj [(''code'', JStr ''return 1'')]),
      Push (displayResult 1 ''execute_javascript'' ?r),
      Push (toolResultMessage call_code ?r)]"
    using nh by (simp add: dispatch_def actualToolResults_eq List.map_filter_simps eval_nat_numeral)
  have p: "\<not> parses ?E call_cut_off"
    by (simp add: parses_def)
  have r: "is_rejected (toolResults ?E 0 ?cs ! 0)"
    by (simp add: toolResults_def)
  have ids: "map tool_call_id (pushed (dispatch ?E 0 ?cs)) = [None, None, Some ''call_1'']"
    by (simp add: d displayMessage_def displayResult_def)
  have idx: "map toolCallIndex (pushed (dispatch ?E 0 ?cs)) = [Some 1, Some 1, None]"
    by (simp add: d)
  have "agent_loop ?E 0 [] =
      Model_call 0 [] # Push (asks ?cs) # dispatch ?E 0 ?cs @
      agent_loop ?E 1 ([] @ asks ?cs # pushed (dispatch ?E 0 ?cs))"
    using nh by (subst agent_loop_step) (simp_all add: maxLoops_def always_asks_def apiMessages_def)
  moreover have "Model_call 1 (apiMessages ([] @ asks ?cs # pushed (dispatch ?E 0 ?cs)))
      \<in> set (agent_loop ?E 1 ([] @ asks ?cs # pushed (dispatch ?E 0 ?cs)))"
    by (rule agent_loop_calls_model) (simp add: maxLoops_def)
  moreover have "apiMessages ([] @ asks ?cs # pushed (dispatch ?E 0 ?cs)) =
      [asks ?cs, toolResultMessage call_code ?r]"
    by (simp add: apiMessages_def d)
  ultimately have m: "Model_call 1 [asks ?cs, toolResultMessage call_code ?r] \<in> set (agent_loop ?E 0 [])"
    by simp
  show ?thesis
    using p r d ids idx m by blast
qed

section \<open>A handler that throws, and one that never settles\<close>

text \<open>
  Claim C4, as stated, fails for a handler that is slow without end. Of the two requests
  below the first returns 1 and the second awaits a promise that never settles. The
  presentation result of the first is appended, but \<^verbatim>\<open>Promise.allSettled\<close> never
  resolves: no wire result is appended, not even that of the first request, the model is
  not called again, and the cycle never ends, so the session stays in its processing state.
\<close>

theorem pending_handler_blocks_siblings_counterexample:
  "snd (call_tool (example_env (always_asks [call_code, call_waits])) (0, 0) ''execute_javascript''
          (JObj [(''code'', JStr ''return 1'')])) =
     Inr (''{'' @ [CHR 0x0A] @
          ''  \"success\": true,'' @ [CHR 0x0A] @
          ''  \"result\": 1,'' @ [CHR 0x0A] @
          ''  \"type\": \"number\",'' @ [CHR 0x0A] @
          ''  \"executedAt\": \"2025-01-01T00:00:00.000Z\"'' @ [CHR 0x0A] @
          ''}'') \<and>
   snd (call_tool (example_env (always_asks [call_code, call_waits])) (0, 1) ''execute_javascript''
          (JObj [(''code'', JStr ''return new Promise(() => {})'')])) = Inl Never_settles \<and>
   map toolCallIndex (filter presentation_result
     (messages (after_submit (example_env (always_asks [call_code, call_waits])) ''hi'' fresh))) = [Some 0] \<and>
   filter wire_result
     (messages (after_submit (example_env (always_asks [call_code, call_waits])) ''hi'' fresh)) = [] \<and>
   length (filter is_model_call
     (submit (example_env (always_asks [call_code, call_waits])) ''hi'' fresh)) = 1 \<and>
   last (submit (example_env (always_asks [call_code, call_waits])) ''hi'' fresh) = Stalled \<and>
   isProcessing (after_submit (example_env (always_asks [call_code, call_waits])) ''hi'' fresh)"
proof -
  let ?E = "example_env (always_asks [call_code, call_waits])"
  let ?r = "JSON_stringify_pretty (obj
        [(''success'', Some (JBool True)), (''result'', Some (JNum ''1'')),
         (''type'', Some (JStr ''number'')),
         (''executedAt'', Some (JStr ''2025-01-01T00:00:00.000Z''))])"
  have h: "hangs ?E 0 [call_code, call_waits]"
    by (simp add: hangs_def)
  have d: "dispatch ?E 0 [call_code, call_waits] =
      [Push (displayMessage 0 2 ''execute_javascript'' (JObj [(''code'', JStr ''return 1'')])),
       Invoke (0, 0) ''execute_javascript'' (JObj [(''code'', JStr ''return 1'')]),
       Push (displayMessage 1 2 ''execute_javascript''
               (JObj [(''code'', JStr ''return new Promise(() => {})'')])),
       Invoke (0, 1) ''execute_javascript'' (JObj [(''code'', JStr ''return new Promise(() => {})'')]),
       Push (displayResult 0 ''execute_javascript'' ?r),
       Stalled]"
    using h by (simp add: dispatch_def eval_nat_numeral)
  have s: "submit ?E ''hi'' fresh =
      [Push (plain_message ''user'' ''hi''), Unshift system_message,
       Model_call 0 [system_message, plain_message ''user'' ''hi''],
       Push (asks [call_code, call_waits])] @ dispatch ?E 0 [call_code, call_waits]"
    using h by (simp add: submit_def fresh_def agent_loop_step maxLoops_def always_asks_def apiMessages_def)
  have m: "messages (after_submit ?E ''hi'' fresh) =
      [system_message, plain_message ''user'' ''hi'', asks [call_code, call_waits],
       displayMessage 0 2 ''execute_javascript'' (JObj [(''code'', JStr ''return 1'')]),
       displayMessage 1 2 ''execute_javascript'' (JObj [(''code'', JStr ''return new Promise(() => {})'')]),
       displayResult 0 ''execute_javascript'' ?r]"
    by (simp add: after_submit_def s d) (simp add: fresh_def)
  have roles: "role system_message \<noteq> ''tool''" "role (plain_message ''user'' ''hi'') \<noteq> ''tool''"
    "role (asks [call_code, call_waits]) \<noteq> ''tool''"
    by (simp_all add: system_message_def plain_message_def asks_def)
  have c1: "snd (call_tool ?E (0, 0) ''execute_javascript'' (JObj [(''code'', JStr ''return 1'')])) =
     Inr (''{'' @ [CHR 0x0A] @
          ''  \"success\": true,'' @ [CHR 0x0A] @
          ''  \"result\": 1,'' @ [CHR 0x0A] @
          ''  \"type\": \"number\",'' @ [CHR 0x0A] @
          ''  \"executedAt\": \"2025-01-01T00:00:00.000Z\"'' @ [CHR 0x0A] @
          ''}'')"
    by (simp only: example_handlers example_payload_text snd_conv)
  have c2: "snd (call_tool ?E (0, 1) ''execute_javascript''
      (JObj [(''code'', JStr ''return new Promise(() => {})'')])) = Inl Never_settles"
    by (simp only: example_handlers snd_conv)
  have c3: "map toolCallIndex (filter presentation_result (messages (after_submit ?E ''hi'' fresh))) = [Some 0]"
    using roles by (simp add: m presentation_result_def)
  have c4: "filter wire_result (messages (after_submit ?E ''hi'' fresh)) = []"
    using roles by (simp add: m wire_result_def)
  have c5: "length (filter is_model_call (submit ?E ''hi'' fresh)) = 1"
    by (simp add: s d)
  have c6: "last (submit ?E ''hi'' fresh) = Stalled"
    by (simp add: s d)
  have c7: "isProcessing (after_submit ?E ''hi'' fresh)"
    by (simp add: after_submit_def s d)
  show ?thesis
    using c1 c2 c3 c4 c5 c6 c7 by blast
qed

text \<open>
  Claim C4, amended: let the handler of the request at position \<open>k\<close> fail (it throws,
  never settles or never returns) and let the handler of a request at another position
  \<open>j\<close> return \<open>r\<close>. The presentation result of \<open>j\<close>, with content \<open>r\<close>, is in the trace unless
  a handler of the turn keeps the page busy for ever: a handler that is merely pending does
  not hold it back. When every handler of the turn settles, the wire result of \<open>j\<close>,
  with content \<open>r\<close> and the id of request \<open>j\<close>, is in the trace; the failure of
  \<open>k\<close>, when it is an error \<open>err\<close> with a readable message, becomes a wire result with
  the payload \<^verbatim>\<open>{"error":"Tool execution failed: err"}\<close>; and the dispatch is followed by
  the next iteration of the loop. When a handler of the turn never settles, no wire result
  of the turn is appended, the trace ends stalled after the dispatch and the loop does not
  go on.
\<close>

theorem failing_handler_spares_siblings:
  assumes "k < length toolCalls"
    and "JSON_parse E (function_arguments (toolCalls ! k)) = Inr ak"
    and "snd (call_tool E (i, k) (function_name (toolCalls ! k)) ak) = Inl f"
    and "j < length toolCalls"
    and "JSON_parse E (function_arguments (toolCalls ! j)) = Inr aj"
    and "snd (call_tool E (i, j) (function_name (toolCalls ! j)) aj) = Inr r"
    and "i < maxLoops"
    and "chat_completions E i (apiMessages msgs) = Reply m"
    and "tool_calls m = Some toolCalls"
  shows "(\<not> list_ex (freezes E i) (enumerate 0 toolCalls) \<longrightarrow>
            Push \<lparr>role = ''tool'', name = Some (function_name (toolCalls ! j)), content = Some r,
                  tool_calls = None, tool_call_id = None, isDisplayOnly = True,
                  toolCallIndex = Some j\<rparr> \<in> set (dispatch E i toolCalls)) \<and>
         (\<not> hangs E i toolCalls \<longrightarrow>
            Push \<lparr>role = ''tool'', name = Some (function_name (toolCalls ! j)), content = Some r,
                  tool_calls = None, tool_call_id = Some (call_id (toolCalls ! j)),
                  isDisplayOnly = False, toolCallIndex = None\<rparr> \<in> set (dispatch E i toolCalls) \<and>
            (f = Rejected err \<longrightarrow>
               Push \<lparr>role = ''tool'', name = Some (function_name (toolCalls ! k)),
                     content = Some (JSON_stringify
                                 (JObj [(''error'', JStr (''Tool execution failed: '' @ err))])),
                     tool_calls = None, tool_call_id = Some (call_id (toolCalls ! k)),
                     isDisplayOnly = False, toolCallIndex = None\<rparr> \<in> set (dispatch E i toolCalls)) \<and>
            agent_loop E i msgs =
              Model_call i (apiMessages msgs) # Push m # dispatch E i toolCalls @
              agent_loop E (Suc i) (msgs @ m # pushed (dispatch E i toolCalls))) \<and>
         (hangs E i toolCalls \<longrightarrow>
            filter wire_result (pushed (dispatch E i toolCalls)) = [] \<and>
            last (dispatch E i toolCalls) = Stalled \<and>
            agent_loop E i msgs = Model_call i (apiMessages msgs) # Push m # dispatch E i toolCalls)"
proof -
  have rj: "callback_result E i (j, toolCalls ! j) = Some r"
    using assms(5,6) by (intro callback_result_returned) simp_all
  have shown: "Push (displayResult j (function_name (toolCalls ! j)) r) \<in> set (dispatch E i toolCalls)"
    if "\<not> list_ex (freezes E i) (enumerate 0 toolCalls)"
    using assms(4) rj that by (rule display_result_pushed)
  have sent: "Push (toolResultMessage (toolCalls ! j) r) \<in> set (dispatch E i toolCalls)"
    if "\<not> hangs E i toolCalls"
    using assms(4) rj that by (rule wire_result_pushed)
  have data: "Push (toolResultMessage (toolCalls ! k)
                 (JSON_stringify (JObj [(''error'', JStr (''Tool execution failed: '' @ err))])))
           \<in> set (dispatch E i toolCalls)"
    if "\<not> hangs E i toolCalls" "f = Rejected err"
  proof -
    have "callback_result E i (k, toolCalls ! k) =
        Some (JSON_stringify (JObj [(''error'', JStr (''Tool execution failed: '' @ err))]))"
      using assms(2,3) that(2) by (intro callback_result_rejected) simp_all
    with assms(1) show ?thesis
      using that(1) by (rule wire_result_pushed)
  qed
  have loop: "agent_loop E i msgs =
           Model_call i (apiMessages msgs) # Push m # dispatch E i toolCalls @
           (if hangs E i toolCalls then []
            else agent_loop E (Suc i) (msgs @ m # pushed (dispatch E i toolCalls)))"
    using assms(7,8,9) by (rule agent_loop_dispatches)
  have goes_on: "agent_loop E i msgs =
           Model_call i (apiMessages msgs) # Push m # dispatch E i toolCalls @
           agent_loop E (Suc i) (msgs @ m # pushed (dispatch E i toolCalls))"
    if "\<not> hangs E i toolCalls"
    using loop that by simp
  have stops: "agent_loop E i msgs = Model_call i (apiMessages msgs) # Push m # dispatch E i toolCalls"
    if "hangs E i toolCalls"
    using loop that by simp
  have none: "filter wire_result (pushed (dispatch E i toolCalls)) = []" if "hangs E i toolCalls"
    using that by (simp add: wire_results_of_dispatch)
  show ?thesis
    using shown sent data goes_on stops none dispatch_ends_stalled[of E i toolCalls]
    unfolding displayResult_entry toolResultMessage_entry by blast
qed

theorem failing_handler_spares_siblings_witness:
  "0 < length [call_null, call_code] \<and>
   JSON_parse (example_env (always_asks [call_null, call_code]))
     (function_arguments ([call_null, call_code] ! 0)) = Inr JNull \<and>
   snd (call_tool (example_env (always_asks [call_null, call_code])) (0, 0)
          (function_name ([call_null, call_code] ! 0)) JNull) =
     Inl (Rejected (cannot_destructure ''code'')) \<and>
   1 < length [call_null, call_code] \<and>
   JSON_parse (example_env (always_asks [call_null, call_code]))
     (function_arguments ([call_null, call_code] ! 1)) = Inr (JObj [(''code'', JStr ''return 1'')]) \<and>
   \<not> hangs (example_env (always_asks [call_null, call_code])) 0 [call_null, call_code] \<and>
   Push \<lparr>role = ''tool'', name = Some ''execute_javascript'',
         content = Some (''{'' @ [CHR 0x0A] @
                         ''  \"success\": true,'' @ [CHR 0x0A] @
                         ''  \"result\": 1,'' @ [CHR 0x0A] @
                         ''  \"type\": \"number\",'' @ [CHR 0x0A] @
                         ''  \"executedAt\": \"2025-01-01T00:00:00.000Z\"'' @ [CHR 0x0A] @
                         ''}''),
         tool_calls = None, tool_call_id = None, isDisplayOnly = True, toolCallIndex = Some 1\<rparr>
     \<in> set (dispatch (example_env (always_asks [call_null, call_code])) 0 [call_null, call_code]) \<and>
   Push \<lparr>role = ''tool'', name = Some ''execute_javascript'',
         content = Some (''{'' @ [CHR 0x0A] @
                         ''  \"success\": true,'' @ [CHR 0x0A] @
                         ''  \"result\": 1,'' @ [CHR 0x0A] @
                         ''  \"type\": \"number\",'' @ [CHR 0x0A] @
                         ''  \"executedAt\": \"2025-01-01T00:00:00.000Z\"'' @ [CHR 0x0A] @
                         ''}''),
         tool_calls = None, tool_call_id = Some ''call_1'', isDisplayOnly = False,
         toolCallIndex = None\<rparr>
     \<in> set (dispatch (example_env (always_asks [call_null, call_code])) 0 [call_null, call_code]) \<and>
   Push \<lparr>role = ''tool'', name = Some ''execute_javascript'',
         content = Some (''{\"error\":\"Tool execution failed: '' @ cannot_destructure ''code'' @ ''\"}''),
         tool_calls = None, tool_call_id = Some ''call_4'', isDisplayOnly = False,
         toolCallIndex = None\<rparr>
     \<in> set (dispatch (example_env (always_asks [call_null, call_code])) 0 [call_null, call_code]) \<and>
   agent_loop (example_env (always_asks [call_null, call_code])) 0 [] =
     Model_call 0 [] # Push (asks [call_null, call_code]) #
     dispatch (example_env (always_asks [call_null, call_code])) 0 [call_null, call_code] @
     agent_loop (example_env (always_asks [call_null, call_code])) (Suc 0)
       ([] @ asks [call_null, call_code] #
        pushed (dispatch (example_env (always_asks [call_null, call_code])) 0 [call_null, call_code]))"
proof -
  let ?E = "example_env (always_asks [call_null, call_code])"
  let ?cs = "[call_null, call_code]"
  let ?r = "JSON_stringify_pretty (obj
        [(''success'', Some (JBool True)), (''result'', Some (JNum ''1'')),
         (''type'', Some (JStr ''number'')),
         (''executedAt'', Some (JStr ''2025-01-01T00:00:00.000Z''))])"
  have k: "0 < length ?cs" by simp
  have pk: "JSON_parse ?E (function_arguments (?cs ! 0)) = Inr JNull" by simp
  have throws: "snd (call_tool ?E (0, 0) (function_name (?cs ! 0)) JNull) =
      Inl (Rejected (cannot_destructure ''code''))"
    by (simp add: example_handlers)
  have j: "1 < length ?cs" by simp
  have pj: "JSON_parse ?E (function_arguments (?cs ! 1)) = Inr (JObj [(''code'', JStr ''return 1'')])"
    by simp
  have returns: "snd (call_tool ?E (0, 1) (function_name (?cs ! 1)) (JObj [(''code'', JStr ''return 1'')])) =
      Inr ?r"
    by (simp add: example_handlers)
  have i: "0 < maxLoops" by (simp add: maxLoops_def)
  have reply: "chat_completions ?E 0 (apiMessages []) = Reply (asks ?cs)"
    by (simp add: always_asks_def)
  have calls: "tool_calls (asks ?cs) = Some ?cs" by simp
  have nf: "\<not> list_ex (freezes ?E 0) (enumerate 0 ?cs)" by simp
  have nh: "\<not> hangs ?E 0 ?cs" by (simp add: hangs_def)
  have n: "?cs ! 0 = call_null" "?cs ! 1 = call_code" "apiMessages [] = []"
    by (simp_all add: apiMessages_def)
  have t: "JSON_stringify (JObj [(''error'', JStr (''Tool execution failed: '' @ cannot_destructure ''code''))]) =
      ''{\"error\":\"Tool execution failed: '' @ cannot_destructure ''code'' @ ''\"}''"
    by code_simp
  show ?thesis
    using k pk throws j pj nf nh
      failing_handler_spares_siblings [OF k pk throws j pj returns i reply calls, of "cannot_destructure ''code''"]
    unfolding n example_calls example_payload_text t
    by blast
qed

section \<open>The announcement of a tool call\<close>

text \<open>
  Claim C8: take a tool request at a position \<open>k\<close> whose arguments parse and which the
  dispatch reaches (no handler before it keeps the page busy for ever); these are the
  requests for which the dispatch gets as far as a handler. The trace of the dispatch has the
  announcement of \<open>k\<close>, an entry of role \<^verbatim>\<open>assistant\<close> named \<^verbatim>\<open>tool-call\<close> whose text
  gives the tool, the position and the arguments. Before it there is nothing that belongs to
  request \<open>k\<close> and no entry that goes to the model. For a known tool the invocation of
  the handler is the next event; for an unknown tool it is the presentation result, which
  says so. When the callback of \<open>k\<close> gets a result \<open>r\<close> and no handler of the turn
  keeps the page busy for ever, the presentation result of \<open>k\<close> with content \<open>r\<close>
  comes after the announcement, and when no handler stays pending either, the wire result of
  \<open>k\<close> with content \<open>r\<close> comes after the presentation result. This holds whatever
  the order in which the handlers settle.
\<close>

theorem announcement_comes_first:
  assumes "k < length toolCalls"
    and "JSON_parse E (function_arguments (toolCalls ! k)) = Inr args"
    and "reached E i toolCalls k"
  shows "\<exists>pre post.
           dispatch E i toolCalls =
             pre @
             Push \<lparr>role = ''assistant'', name = Some ''tool-call'',
                   content = Some ([CHR 0xF0, CHR 0x9F, CHR 0x94, CHR 0xA7] @ '' **Calling tool: '' @
                                   function_name (toolCalls ! k) @ ''** ('' @ digits (k + 1) @ ''/'' @
                                   digits (length toolCalls) @ '')'' @ [CHR 0x0A] @ ''```json'' @
                                   [CHR 0x0A] @ JSON_stringify_pretty args @ [CHR 0x0A] @ ''```''),
                   tool_calls = None, tool_call_id = None, isDisplayOnly = True,
                   toolCallIndex = Some k\<rparr> # post \<and>
           filter (about_call k) pre = [] \<and>
           filter wire_push pre = [] \<and>
           (awaited (function_name (toolCalls ! k)) \<longrightarrow>
              (\<exists>rest. post = Invoke (i, k) (function_name (toolCalls ! k)) args # rest)) \<and>
           (\<not> awaited (function_name (toolCalls ! k)) \<longrightarrow>
              (\<exists>rest. post =
                 Push \<lparr>role = ''tool'', name = Some (function_name (toolCalls ! k)),
                       content = Some (JSON_stringify (JObj [(''error'',
                                   JStr (''Unknown tool: '' @ function_name (toolCalls ! k)))])),
                       tool_calls = None, tool_call_id = None, isDisplayOnly = True,
                       toolCallIndex = Some k\<rparr> # rest)) \<and>
           (callback_result E i (k, toolCalls ! k) = Some r \<and>
            \<not> list_ex (freezes E i) (enumerate 0 toolCalls) \<longrightarrow>
              (\<exists>mid rest. post =
                 mid @
                 Push \<lparr>role = ''tool'', name = Some (function_name (toolCalls ! k)),
                       content = Some r, tool_calls = None, tool_call_id = None,
                       isDisplayOnly = True, toolCallIndex = Some k\<rparr> # rest \<and>
                 (\<not> hangs E i toolCalls \<longrightarrow>
                    Push \<lparr>role = ''tool'', name = Some (function_name (toolCalls ! k)),
                          content = Some r, tool_calls = None,
                          tool_call_id = Some (call_id (toolCalls ! k)), isDisplayOnly = False,
                          toolCallIndex = None\<rparr> \<in> set rest)))"
proof -
  let ?f = "function_name (toolCalls ! k)"
  let ?n = "length toolCalls"
  let ?p = "(k, toolCalls ! k)"
  let ?ann = "Push (displayMessage k ?n ?f args)"
  let ?A = "concat (map (started E i ?n) (enumerate 0 (take k toolCalls)))"
  let ?R = "concat (map (resumed E i) (sort_key (\<lambda>p. settles_at E (i, fst p)) (enumerate 0 toolCalls)))"
  let ?W = "if hangs E i toolCalls then [Stalled] else map Push (actualToolResults E i toolCalls)"
  let ?unknown = "JSON_stringify (JObj [(''error'', JStr (''Unknown tool: '' @ ?f))])"
  from dispatch_around[OF assms(1,3)] obtain later where
    d: "dispatch E i toolCalls = ?A @ started E i ?n ?p @ later" and
    l: "\<not> list_ex (freezes E i) (enumerate 0 toolCalls) \<longrightarrow> (\<exists>others. later = others @ ?R @ ?W)"
    by blast
  obtain tail where s: "started E i ?n ?p = ?ann # tail"
    and known: "awaited ?f \<longrightarrow> (\<exists>rest. tail = Invoke (i, k) ?f args # rest)"
    and unknown: "\<not> awaited ?f \<longrightarrow> tail = [Push (displayResult k ?f ?unknown)]"
    using assms(2) by (simp add: started_events callback_result_def unknown_tool_result)
  let ?post = "tail @ later"
  have "dispatch E i toolCalls = ?A @ ?ann # ?post"
    by (simp add: d s)
  moreover have "filter (about_call k) ?A = []"
    by (rule started_before_quiet)
  moreover have "filter wire_push ?A = []"
    by (rule started_part_no_wire)
  moreover have "awaited ?f \<longrightarrow> (\<exists>rest. ?post = Invoke (i, k) ?f args # rest)"
    using known by auto
  moreover have "\<not> awaited ?f \<longrightarrow> (\<exists>rest. ?post = Push (displayResult k ?f ?unknown) # rest)"
    using unknown by auto
  moreover have "callback_result E i ?p = Some r \<and> \<not> list_ex (freezes E i) (enumerate 0 toolCalls) \<longrightarrow>
      (\<exists>mid rest. ?post = mid @ Push (displayResult k ?f r) # rest \<and>
         (\<not> hangs E i toolCalls \<longrightarrow> Push (toolResultMessage (toolCalls ! k) r) \<in> set rest))"
  proof
    assume h: "callback_result E i ?p = Some r \<and> \<not> list_ex (freezes E i) (enumerate 0 toolCalls)"
    with l obtain others where o: "later = others @ ?R @ ?W" by blast
    have w: "\<not> hangs E i toolCalls \<longrightarrow> Push (toolResultMessage (toolCalls ! k) r) \<in> set ?W"
      using wire_in_actual[OF assms(1), of E i r] h by simp
    show "\<exists>mid rest. ?post = mid @ Push (displayResult k ?f r) # rest \<and>
         (\<not> hangs E i toolCalls \<longrightarrow> Push (toolResultMessage (toolCalls ! k) r) \<in> set rest)"
    proof (cases "awaited ?f")
      case True
      from resumed_split[OF assms(1) True, of E i r] h obtain before after where
        "?R = before @ Push (displayResult k ?f r) # after"
        by blast
      then have "?post = (tail @ others @ before) @ Push (displayResult k ?f r) # (after @ ?W)"
        by (simp add: o)
      moreover have "\<not> hangs E i toolCalls \<longrightarrow> Push (toolResultMessage (toolCalls ! k) r) \<in> set (after @ ?W)"
        using w by simp
      ultimately show ?thesis by blast
    next
      case False
      have "r = ?unknown"
        using h False assms(2) by (simp add: callback_result_def unknown_tool_result)
      with unknown False have "?post = [] @ Push (displayResult k ?f r) # later"
        by simp
      moreover have "\<not> hangs E i toolCalls \<longrightarrow> Push (toolResultMessage (toolCalls ! k) r) \<in> set later"
        using w o by simp
      ultimately show ?thesis by blast
    qed
  qed
  ultimately show ?thesis
    unfolding displayMessage_entry displayResult_entry toolResultMessage_entry by blast
qed

theorem announcement_comes_first_witness:
  "1 < length [call_code, call_search] \<and>
   JSON_parse (example_env server_error) (function_arguments ([call_code, call_search] ! 1)) =
     Inr (JObj [(''query'', JStr ''tea'')]) \<and>
   reached (example_env server_error) 0 [call_code, call_search] 1 \<and>
   (\<exists>pre post.
      dispatch (example_env server_error) 0 [call_code, call_search] =
        pre @
        Push \<lparr>role = ''assistant'', name = Some ''tool-call'',
              content = Some ([CHR 0xF0, CHR 0x9F, CHR 0x94, CHR 0xA7] @
                              '' **Calling tool: google_search** (2/2)'' @ [CHR 0x0A] @
                              ''```json'' @ [CHR 0x0A] @
                              ''{'' @ [CHR 0x0A] @
                              ''  \"query\": \"tea\"'' @ [CHR 0x0A] @
                              ''}'' @ [CHR 0x0A] @
                              ''```''),
              tool_calls = None, tool_call_id = None, isDisplayOnly = True,
              toolCallIndex = Some 1\<rparr> # post \<and>
      filter (about_call 1) pre = [] \<and>
      filter wire_push pre = [] \<and>
      (\<exists>rest. post = Invoke (0, 1) ''google_search'' (JObj [(''query'', JStr ''tea'')]) # rest) \<and>
      (\<exists>mid rest. post =
         mid @
         Push \<lparr>role = ''tool'', name = Some ''google_search'',
               content = Some ''{\"error\":\"Google Search API Key or CX ID is missing. Please configure them in the sidebar.\",\"configRequired\":true}'',
               tool_calls = None, tool_call_id = None, isDisplayOnly = True,
               toolCallIndex = Some 1\<rparr> # rest \<and>
         Push \<lparr>role = ''tool'', name = Some ''google_search'',
               content = Some ''{\"error\":\"Google Search API Key or CX ID is missing. Please configure them in the sidebar.\",\"configRequired\":true}'',
               tool_calls = None, tool_call_id = Some ''call_2'', isDisplayOnly = False,
               toolCallIndex = None\<rparr> \<in> set rest))"
proof -
  let ?E = "example_env server_error"
  have k: "1 < length [call_code, call_search]"
    by simp
  have p: "JSON_parse ?E (function_arguments ([call_code, call_search] ! 1)) =
      Inr (JObj [(''query'', JStr ''tea'')])"
    by simp
  have reach: "reached ?E 0 [call_code, call_search] 1"
    by (simp add: reached_def)
  have n: "[call_code, call_search] ! 1 = call_search"
    by simp
  have aw: "awaited (function_name call_search)"
    by simp
  have cr: "callback_result ?E 0 (1, call_search) = Some config_required"
    by simp
  have nf: "\<not> list_ex (freezes ?E 0) (enumerate 0 [call_code, call_search])"
    by simp
  have nh: "\<not> hangs ?E 0 [call_code, call_search]"
    by (simp add: hangs_def)
  have t: "[CHR 0xF0, CHR 0x9F, CHR 0x94, CHR 0xA7] @ '' **Calling tool: '' @
      ''google_search'' @ ''** ('' @ digits (1 + 1) @ ''/'' @
      digits (length [call_code, call_search]) @ '')'' @ [CHR 0x0A] @ ''```json'' @
      [CHR 0x0A] @ JSON_stringify_pretty (JObj [(''query'', JStr ''tea'')]) @ [CHR 0x0A] @ ''```'' =
      [CHR 0xF0, CHR 0x9F, CHR 0x94, CHR 0xA7] @
      '' **Calling tool: google_search** (2/2)'' @ [CHR 0x0A] @
      ''```json'' @ [CHR 0x0A] @
      ''{'' @ [CHR 0x0A] @
      ''  \"query\": \"tea\"'' @ [CHR 0x0A] @
      ''}'' @ [CHR 0x0A] @
      ''```''"
    by code_simp
  show ?thesis
    using k p reach aw cr nf nh announcement_comes_first [OF k p reach, of config_required]
    unfolding n example_calls t config_required_text
    by blast
qed

section \<open>The order of the wire results\<close>

text \<open>
  Claim C10: when the arguments of all tool requests of an assistant turn parse, the wire
  tool results that the dispatch appends are those of the requests whose callback got a
  result, in the order of the requests, each with the name of the tool, the result and the
  id of its request; the settling instants of the handlers do not occur in that list. They
  are appended as one block, after every display entry of the dispatch, and only when all
  handlers have settled. Only the presentation results follow the order of completion:
  when no handler keeps the page busy for ever, first come those of unknown tools, which are
  pushed at once, and then those of the awaited handlers in the order of their settling
  instants.
\<close>

theorem wire_results_keep_request_order:
  assumes "list_all (parses E) toolCalls"
  shows "filter wire_result (pushed (dispatch E i toolCalls)) =
           (if hangs E i toolCalls then []
            else List.map_filter
                   (\<lambda>p. map_option
                      (\<lambda>r. \<lparr>role = ''tool'', name = Some (function_name (snd p)), content = Some r,
                            tool_calls = None, tool_call_id = Some (call_id (snd p)),
                            isDisplayOnly = False, toolCallIndex = None\<rparr>)
                      (callback_result E i p))
                   (enumerate 0 toolCalls)) \<and>
         map tool_call_id (filter wire_result (pushed (dispatch E i toolCalls))) =
           (if hangs E i toolCalls then []
            else map (\<lambda>p. Some (call_id (snd p)))
                   (filter (\<lambda>p. callback_result E i p \<noteq> None) (enumerate 0 toolCalls))) \<and>
         (\<exists>shown. pushed (dispatch E i toolCalls) =
                     shown @ filter wire_result (pushed (dispatch E i toolCalls)) \<and>
                   apiMessages shown = []) \<and>
         (\<not> list_ex (freezes E i) (enumerate 0 toolCalls) \<longrightarrow>
            map toolCallIndex (filter presentation_result (pushed (dispatch E i toolCalls))) =
              map (\<lambda>p. Some (fst p))
                (filter (\<lambda>p. \<not> awaited (function_name (snd p))) (enumerate 0 toolCalls) @
                 filter (\<lambda>p. callback_result E i p \<noteq> None)
                   (sort_key (\<lambda>p. settles_at E (i, fst p))
                      (filter (\<lambda>p. awaited (function_name (snd p))) (enumerate 0 toolCalls)))))"
proof -
  let ?ps = "enumerate 0 toolCalls"
  let ?key = "\<lambda>p. settles_at E (i, fst p)"
  let ?wire = "filter wire_result (pushed (dispatch E i toolCalls))"
  have all: "list_all (\<lambda>p. parses E (snd p)) ?ps"
    using assms by (rule list_all_enumerate)
  have w: "?wire = (if hangs E i toolCalls then []
      else List.map_filter (\<lambda>p. map_option (toolResultMessage (snd p)) (callback_result E i p)) ?ps)"
    by (simp only: wire_results_of_dispatch actualToolResults_eq)
  have ids: "map tool_call_id ?wire =
      (if hangs E i toolCalls then []
       else map (\<lambda>p. Some (call_id (snd p))) (filter (\<lambda>p. callback_result E i p \<noteq> None) ?ps))"
    by (simp add: w map_filter_ids)
  obtain shown where s: "\<forall>m \<in> set shown. isDisplayOnly m"
    "pushed (dispatch E i toolCalls) =
       shown @ (if hangs E i toolCalls then [] else actualToolResults E i toolCalls)"
    using dispatch_pushed by blast
  have "pushed (dispatch E i toolCalls) = shown @ ?wire"
    by (subst wire_results_of_dispatch) (rule s(2))
  moreover have "apiMessages shown = []"
    using s(1) by (simp add: apiMessages_def filter_empty_conv)
  ultimately have block: "\<exists>shown. pushed (dispatch E i toolCalls) = shown @ ?wire \<and> apiMessages shown = []"
    by blast
  have display: "map toolCallIndex (filter presentation_result (pushed (dispatch E i toolCalls))) =
      map (\<lambda>p. Some (fst p))
        (filter (\<lambda>p. \<not> awaited (function_name (snd p))) ?ps @
         filter (\<lambda>p. callback_result E i p \<noteq> None)
           (sort_key ?key (filter (\<lambda>p. awaited (function_name (snd p))) ?ps)))"
    if "\<not> list_ex (freezes E i) ?ps"
    using that
    by (simp add: dispatch_def run_started_all started_part_results[OF all] resumed_part_results
        actual_no_presentation filter_sort presentation_result_def)
  show ?thesis
    using w ids block display unfolding toolResultMessage_entry by blast
qed

theorem wire_results_keep_request_order_witness:
  "list_all (parses (example_env server_error)) [call_code, call_opaque, call_search] \<and>
   filter wire_result (pushed (dispatch (example_env server_error) 0 [call_code, call_opaque, call_search])) =
     [\<lparr>role = ''tool'', name = Some ''execute_javascript'',
       content = Some (''{'' @ [CHR 0x0A] @
                       ''  \"success\": true,'' @ [CHR 0x0A] @
                       ''  \"result\": 1,'' @ [CHR 0x0A] @
                       ''  \"type\": \"number\",'' @ [CHR 0x0A] @
                       ''  \"executedAt\": \"2025-01-01T00:00:00.000Z\"'' @ [CHR 0x0A] @
                       ''}''),
       tool_calls = None, tool_call_id = Some ''call_1'', isDisplayOnly = False,
       toolCallIndex = None\<rparr>,
      \<lparr>role = ''tool'', name = Some ''google_search'',
       content = Some ''{\"error\":\"Google Search API Key or CX ID is missing. Please configure them in the sidebar.\",\"configRequired\":true}'',
       tool_calls = None, tool_call_id = Some ''call_2'', isDisplayOnly = False,
       toolCallIndex = None\<rparr>] \<and>
   map tool_call_id
     (filter wire_result (pushed (dispatch (example_env server_error) 0 [call_code, call_opaque, call_search]))) =
     [Some ''call_1'', Some ''call_2''] \<and>
   (\<exists>shown. pushed (dispatch (example_env server_error) 0 [call_code, call_opaque, call_search]) =
      shown @
      filter wire_result (pushed (dispatch (example_env server_error) 0 [call_code, call_opaque, call_search])) \<and>
      apiMessages shown = []) \<and>
   \<not> list_ex (freezes (example_env server_error) 0) (enumerate 0 [call_code, call_opaque, call_search]) \<and>
   map toolCallIndex
     (filter presentation_result
        (pushed (dispatch (example_env server_error) 0 [call_code, call_opaque, call_search]))) =
     [Some 2, Some 0]"
proof -
  let ?E = "example_env server_error"
  let ?cs = "[call_code, call_opaque, call_search]"
  have h: "list_all (parses ?E) ?cs"
    by (simp add: parses_def)
  have nf: "\<not> list_ex (freezes ?E 0) (enumerate 0 ?cs)"
    by simp
  have nh: "\<not> hangs ?E 0 ?cs"
    by (simp add: hangs_def)
  note w = wire_results_keep_request_order [OF h, of 0]
  have "filter wire_result (pushed (dispatch ?E 0 ?cs)) =
      (if hangs ?E 0 ?cs then []
       else List.map_filter
              (\<lambda>p. map_option
                 (\<lambda>r. \<lparr>role = ''tool'', name = Some (function_name (snd p)), content = Some r,
                       tool_calls = None, tool_call_id = Some (call_id (snd p)),
                       isDisplayOnly = False, toolCallIndex = None\<rparr>)
                 (callback_result ?E 0 p))
              (enumerate 0 ?cs))"
    using w by (rule conjunct1)
  then have c1: "filter wire_result (pushed (dispatch ?E 0 ?cs)) =
     [\<lparr>role = ''tool'', name = Some ''execute_javascript'',
       content = Some (''{'' @ [CHR 0x0A] @
                       ''  \"success\": true,'' @ [CHR 0x0A] @
                       ''  \"result\": 1,'' @ [CHR 0x0A] @
                       ''  \"type\": \"number\",'' @ [CHR 0x0A] @
                       ''  \"executedAt\": \"2025-01-01T00:00:00.000Z\"'' @ [CHR 0x0A] @
                       ''}''),
       tool_calls = None, tool_call_id = Some ''call_1'', isDisplayOnly = False,
       toolCallIndex = None\<rparr>,
      \<lparr>role = ''tool'', name = Some ''google_search'',
       content = Some ''{\"error\":\"Google Search API Key or CX ID is missing. Please configure them in the sidebar.\",\"configRequired\":true}'',
       tool_calls = None, tool_call_id = Some ''call_2'', isDisplayOnly = False,
       toolCallIndex = None\<rparr>]"
    using nh by (simp add: List.map_filter_simps example_payload_text config_required_text)
  have "map tool_call_id (filter wire_result (pushed (dispatch ?E 0 ?cs))) =
      (if hangs ?E 0 ?cs then []
       else map (\<lambda>p. Some (call_id (snd p)))
              (filter (\<lambda>p. callback_result ?E 0 p \<noteq> None) (enumerate 0 ?cs)))"
    using w by blast
  then have c2: "map tool_call_id (filter wire_result (pushed (dispatch ?E 0 ?cs))) =
      [Some ''call_1'', Some ''call_2'']"
    using nh by simp
  have c3: "\<exists>shown. pushed (dispatch ?E 0 ?cs) = shown @ filter wire_result (pushed (dispatch ?E 0 ?cs)) \<and>
      apiMessages shown = []"
    using w by blast
  have "map toolCallIndex (filter presentation_result (pushed (dispatch ?E 0 ?cs))) =
      map (\<lambda>p. Some (fst p))
        (filter (\<lambda>p. \<not> awaited (function_name (snd p))) (enumerate 0 ?cs) @
         filter (\<lambda>p. callback_result ?E 0 p \<noteq> None)
           (sort_key (\<lambda>p. settles_at ?E (0, fst p))
              (filter (\<lambda>p. awaited (function_name (snd p))) (enumerate 0 ?cs))))"
    using w nf by blast
  then have c4: "map toolCallIndex (filter presentation_result (pushed (dispatch ?E 0 ?cs))) =
      [Some 2, Some 0]"
    by simp
  show ?thesis
    using h nf c1 c2 c3 c4 by blast
qed

section \<open>The iteration limit\<close>

text \<open>
  Claim C5, as stated, fails when a handler of the tenth dispatch never settles. In the
  cycle below the model asks for a tool in each of its ten replies; the tool of the tenth
  awaits a promise that never settles. The cycle makes its ten model calls and then stalls
  in the dispatch: it does not terminate and no entry about the limit is appended.
\<close>

theorem pending_tenth_dispatch_counterexample:
  "Model_call 9 example_wire \<in> set (submit (example_env asks_then_waits) ''hi'' fresh) \<and>
   chat_completions (example_env asks_then_waits) 9 example_wire = Reply (asks [call_waits]) \<and>
   tool_calls (asks [call_waits]) = Some [call_waits] \<and>
   length (filter is_model_call (submit (example_env asks_then_waits) ''hi'' fresh)) = 10 \<and>
   last (submit (example_env asks_then_waits) ''hi'' fresh) = Stalled \<and>
   Push max_loop_message \<notin> set (submit (example_env asks_then_waits) ''hi'' fresh)"
proof -
  let ?E = "example_env asks_then_waits"
  have f: "\<And>i w. i < 9 \<Longrightarrow> asks_then_waits i w = Reply (asks [call_code])"
    by (simp add: asks_then_waits_def)
  from example_nine_rounds[of asks_then_waits, OF f] obtain pre msgs where
    p: "submit ?E ''hi'' fresh = pre @ agent_loop ?E 9 msgs" "apiMessages msgs = example_wire"
      "Stalled \<notin> set pre" "Push max_loop_message \<notin> set pre"
    by blast
  have r: "chat_completions ?E 9 example_wire = Reply (asks [call_waits])"
    by (simp add: asks_then_waits_def)
  have "agent_loop ?E 9 msgs =
      Model_call 9 (apiMessages msgs) # Push (asks [call_waits]) # dispatch ?E 9 [call_waits] @
      (if hangs ?E 9 [call_waits] then []
       else agent_loop ?E (Suc 9) (msgs @ asks [call_waits] # pushed (dispatch ?E 9 [call_waits])))"
    using r p(2) by (intro agent_loop_dispatches) (simp_all add: maxLoops_def)
  then have a: "agent_loop ?E 9 msgs =
      [Model_call 9 example_wire, Push (asks [call_waits]),
       Push (displayMessage 0 1 ''execute_javascript''
               (JObj [(''code'', JStr ''return new Promise(() => {})'')])),
       Invoke (9, 0) ''execute_javascript'' (JObj [(''code'', JStr ''return new Promise(() => {})'')]),
       Stalled]"
    by (simp add: p(2) example_dispatch_waits)
  have n: "max_loop_message \<noteq> m" if "name m \<noteq> Some ''error''" for m
  proof
    assume "max_loop_message = m"
    then have "name max_loop_message = name m" by (rule arg_cong)
    with that show False by simp
  qed
  have c1: "Model_call 9 example_wire \<in> set (submit ?E ''hi'' fresh)"
    by (simp add: p(1) a)
  from submit_reaches[OF c1] obtain pre' msgs' where
    q: "submit ?E ''hi'' fresh = pre' @ agent_loop ?E 9 msgs'" "example_wire = apiMessages msgs'"
      "length (filter is_model_call pre') = 9"
    by blast
  have "agent_loop ?E 9 msgs' =
      Model_call 9 (apiMessages msgs') # Push (asks [call_waits]) # dispatch ?E 9 [call_waits] @
      (if hangs ?E 9 [call_waits] then []
       else agent_loop ?E (Suc 9) (msgs' @ asks [call_waits] # pushed (dispatch ?E 9 [call_waits])))"
    using r q(2) by (intro agent_loop_dispatches) (simp_all add: maxLoops_def)
  then have "length (filter is_model_call (agent_loop ?E 9 msgs')) = 1"
    by (simp add: example_dispatch_waits)
  then have c4: "length (filter is_model_call (submit ?E ''hi'' fresh)) = 10"
    using q(3) by (simp add: q(1))
  have c5: "last (submit ?E ''hi'' fresh) = Stalled"
    by (simp add: p(1) a)
  have c6: "Push max_loop_message \<notin> set (submit ?E ''hi'' fresh)"
    using p(4) n[of "asks [call_waits]"]
      n[of "displayMessage 0 1 ''execute_javascript'' (JObj [(''code'', JStr ''return new Promise(() => {})'')])"]
    by (simp add: p(1) a)
  show ?thesis
    using c1 r c4 c5 c6 by simp
qed

text \<open>
  Claim C5, amended: a submission makes at most 10 calls of the model endpoint. When the
  tenth call (loop index 9) is answered by a message that carries tool calls and every
  handler of that dispatch settles, the trace ends with that call, the push of the answer,
  the dispatch of its tool calls and the push of the entry that reports the loop limit, an
  entry of role \<^verbatim>\<open>assistant\<close> named \<^verbatim>\<open>error\<close>: exactly 10 model calls, and none after
  the tenth. When a handler of that dispatch never settles, the trace ends stalled in the
  dispatch, again with exactly 10 model calls.
\<close>

theorem at_most_ten_model_calls:
  "length (filter is_model_call (submit E question s)) \<le> 10 \<and>
   (Model_call 9 w \<in> set (submit E question s) \<and> chat_completions E 9 w = Reply m \<and>
    tool_calls m = Some toolCalls \<longrightarrow>
      length (filter is_model_call (submit E question s)) = 10 \<and>
      (\<not> hangs E 9 toolCalls \<longrightarrow>
         (\<exists>pre. submit E question s =
            pre @ Model_call 9 w # Push m # dispatch E 9 toolCalls @
            [Push \<lparr>role = ''assistant'', name = Some ''error'',
                   content = Some ([CHR 0xE2, CHR 0x9A, CHR 0xA0, CHR 0xEF, CHR 0xB8, CHR 0x8F] @
                     '' Agent reached maximum loop limit. The task may not be fully complete.''),
                   tool_calls = None, tool_call_id = None, isDisplayOnly = False,
                   toolCallIndex = None\<rparr>])) \<and>
      (hangs E 9 toolCalls \<longrightarrow>
         (\<exists>pre. submit E question s = pre @ Model_call 9 w # Push m # dispatch E 9 toolCalls) \<and>
         last (submit E question s) = Stalled))"
proof (intro conjI impI)
  show "length (filter is_model_call (submit E question s)) \<le> 10"
    using submit_cases[of E question s] model_calls_bounded[of E 0]
    by (auto simp: maxLoops_def)
next
  assume h: "Model_call 9 w \<in> set (submit E question s) \<and> chat_completions E 9 w = Reply m \<and>
    tool_calls m = Some toolCalls"
  from submit_reaches[of 9 w E question s] h
  obtain pre msgs where p: "submit E question s = pre @ agent_loop E 9 msgs" "w = apiMessages msgs"
    "length (filter is_model_call pre) = 9"
    by blast
  have a: "agent_loop E 9 msgs =
      Model_call 9 w # Push m # dispatch E 9 toolCalls @
      (if hangs E 9 toolCalls then []
       else agent_loop E (Suc 9) (msgs @ m # pushed (dispatch E 9 toolCalls)))"
    using h p(2) agent_loop_dispatches[of 9 E msgs m toolCalls] by (simp add: maxLoops_def)
  have l: "agent_loop E (Suc 9) (msgs @ m # pushed (dispatch E 9 toolCalls)) = [Push max_loop_message]"
    "agent_loop E 10 (msgs @ m # pushed (dispatch E 9 toolCalls)) = [Push max_loop_message]"
    by (simp_all add: agent_loop_limit maxLoops_def)
  show "length (filter is_model_call (submit E question s)) = 10"
    using p(3) by (simp add: p(1) a l dispatch_no_model_call)
  show "\<exists>pre. submit E question s =
            pre @ Model_call 9 w # Push m # dispatch E 9 toolCalls @
            [Push \<lparr>role = ''assistant'', name = Some ''error'',
                   content = Some ([CHR 0xE2, CHR 0x9A, CHR 0xA0, CHR 0xEF, CHR 0xB8, CHR 0x8F] @
                     '' Agent reached maximum loop limit. The task may not be fully complete.''),
                   tool_calls = None, tool_call_id = None, isDisplayOnly = False,
                   toolCallIndex = None\<rparr>]"
    if "\<not> hangs E 9 toolCalls"
  proof -
    have "submit E question s =
        pre @ Model_call 9 w # Push m # dispatch E 9 toolCalls @ [Push max_loop_message]"
      using that by (simp add: p(1) a l)
    then show ?thesis
      unfolding max_loop_message_entry by blast
  qed
  have whole: "submit E question s = pre @ Model_call 9 w # Push m # dispatch E 9 toolCalls"
    if "hangs E 9 toolCalls"
    using that by (simp add: p(1) a)
  show "\<exists>pre. submit E question s = pre @ Model_call 9 w # Push m # dispatch E 9 toolCalls"
    if "hangs E 9 toolCalls"
    using whole[OF that] by blast
  show "last (submit E question s) = Stalled" if "hangs E 9 toolCalls"
  proof -
    have "dispatch E 9 toolCalls \<noteq> []"
      using that dispatch_stalls[of E 9 toolCalls] by auto
    then show ?thesis
      using dispatch_ends_stalled[OF that] by (simp add: whole[OF that])
  qed
qed

theorem at_most_ten_model_calls_witness:
  "length (filter is_model_call (submit (example_env (always_asks [call_code])) ''hi'' fresh)) \<le> 10 \<and>
   Model_call 9 example_wire \<in> set (submit (example_env (always_asks [call_code])) ''hi'' fresh) \<and>
   chat_completions (example_env (always_asks [call_code])) 9 example_wire = Reply (asks [call_code]) \<and>
   tool_calls (asks [call_code]) = Some [call_code] \<and>
   \<not> hangs (example_env (always_asks [call_code])) 9 [call_code] \<and>
   length (filter is_model_call (submit (example_env (always_asks [call_code])) ''hi'' fresh)) = 10 \<and>
   (\<exists>pre. submit (example_env (always_asks [call_code])) ''hi'' fresh =
      pre @ Model_call 9 example_wire # Push (asks [call_code]) #
      dispatch (example_env (always_asks [call_code])) 9 [call_code] @
      [Push \<lparr>role = ''assistant'', name = Some ''error'',
             content = Some ([CHR 0xE2, CHR 0x9A, CHR 0xA0, CHR 0xEF, CHR 0xB8, CHR 0x8F] @
               '' Agent reached maximum loop limit. The task may not be fully complete.''),
             tool_calls = None, tool_call_id = None, isDisplayOnly = False,
             toolCallIndex = None\<rparr>])"
proof -
  let ?E = "example_env (always_asks [call_code])"
  have f: "\<And>i w. i < 9 \<Longrightarrow> always_asks [call_code] i w = Reply (asks [call_code])"
    by (simp add: always_asks_def)
  from example_nine_rounds[of "always_asks [call_code]", OF f] obtain pre msgs where
    p: "submit ?E ''hi'' fresh = pre @ agent_loop ?E 9 msgs" "apiMessages msgs = example_wire"
    by blast
  have "Model_call 9 (apiMessages msgs) \<in> set (agent_loop ?E 9 msgs)"
    by (rule agent_loop_calls_model) (simp add: maxLoops_def)
  then have h1: "Model_call 9 example_wire \<in> set (submit ?E ''hi'' fresh)"
    by (simp add: p)
  have h2: "chat_completions ?E 9 example_wire = Reply (asks [call_code])"
    by (simp add: always_asks_def)
  have h3: "tool_calls (asks [call_code]) = Some [call_code]"
    by simp
  have nh: "\<not> hangs ?E 9 [call_code]"
    by simp
  show ?thesis
    using h1 h2 h3 nh
      at_most_ten_model_calls [of ?E "''hi''" fresh example_wire "asks [call_code]" "[call_code]"]
    by blast
qed

section \<open>A model call that fails\<close>



section \<open>Error entries and the messages sent to the model\<close>

text \<open>
  Claim C3, as stated, fails: error entries are not marked display-only. After a first cycle
  that ended with an error entry, the second submission sends that entry to the model.
\<close>

theorem error_entry_is_sent_counterexample:
  "Model_call 0
     [system_message, plain_message ''user'' ''hi'',
      error_message (''API Error: '' @ digits 500 @ '' '' @ ''Internal Server Error'' @
                     [CHR 0x0A] @ ''upstream down''),
      plain_message ''user'' ''again'']
     \<in> set (submit (example_env server_error) ''again''
               (after_submit (example_env server_error) ''hi'' fresh)) \<and>
   name (error_message (''API Error: '' @ digits 500 @ '' '' @ ''Internal Server Error'' @
                        [CHR 0x0A] @ ''upstream down'')) = Some ''error''"
proof -
  have "isProcessing (after_submit (example_env server_error) ''hi'' fresh) = False"
    by (simp add: after_submit_def example_first_cycle) (simp add: fresh_def)
  then show ?thesis
    by (simp add: submit_def example_after_first_cycle agent_loop_step maxLoops_def
        server_error_def apiMessages_def error_message_def)
qed

text \<open>
  Claim C3, amended: the messages sent to the model never contain an entry marked
  display-only, in any state of the conversation and at every model call of a cycle, where
  they are the unmarked entries of the array as it is at that moment. The error entries
  themselves are not marked: the filter keeps them, so they are sent with later model calls.
\<close>

theorem wire_view_has_no_display_only:
  "filter isDisplayOnly (apiMessages msgs) = [] \<and>
   apiMessages (msgs @ [error_message err]) = apiMessages msgs @ [error_message err] \<and>
   apiMessages (msgs @ [max_loop_message]) = apiMessages msgs @ [max_loop_message] \<and>
   (Model_call j w \<in> set (submit E question s) \<longrightarrow>
      filter isDisplayOnly w = [] \<and>
      (\<exists>pre rest. submit E question s = pre @ Model_call j w # rest \<and>
                  w = apiMessages (replay (messages s) pre)))"
proof (intro conjI impI)
  show "filter isDisplayOnly (apiMessages msgs) = []"
    by (rule apiMessages_no_display_only)
  show "apiMessages (msgs @ [error_message err]) = apiMessages msgs @ [error_message err]"
    by (simp add: apiMessages_def)
  show "apiMessages (msgs @ [max_loop_message]) = apiMessages msgs @ [max_loop_message]"
    by (simp add: apiMessages_def)
next
  assume h: "Model_call j w \<in> set (submit E question s)"
  from submit_reaches[OF h]
  obtain pre ms where p: "submit E question s = pre @ agent_loop E j ms" "w = apiMessages ms"
    "j < maxLoops" "ms = replay (messages s) pre"
    by blast
  show "filter isDisplayOnly w = []"
    using p(2) by (simp add: apiMessages_no_display_only)
  have "\<exists>rest. agent_loop E j ms = Model_call j w # rest"
    using p(2,3) by (simp add: agent_loop_step)
  then show "\<exists>pre rest. submit E question s = pre @ Model_call j w # rest \<and>
                  w = apiMessages (replay (messages s) pre)"
    using p(1,2,4) by auto
qed

theorem wire_view_has_no_display_only_witness:
  "filter isDisplayOnly (apiMessages [displayResult 0 ''execute_javascript'' ''1'']) = [] \<and>
   apiMessages ([displayResult 0 ''execute_javascript'' ''1''] @ [error_message ''Failed to fetch'']) =
     apiMessages [displayResult 0 ''execute_javascript'' ''1''] @ [error_message ''Failed to fetch''] \<and>
   apiMessages ([displayResult 0 ''execute_javascript'' ''1''] @ [max_loop_message]) =
     apiMessages [displayResult 0 ''execute_javascript'' ''1''] @ [max_loop_message] \<and>
   Model_call 0 [system_message, plain_message ''user'' ''hi'']
     \<in> set (submit (example_env server_error) ''hi'' fresh) \<and>
   filter isDisplayOnly [system_message, plain_message ''user'' ''hi''] = [] \<and>
   (\<exists>pre rest. submit (example_env server_error) ''hi'' fresh =
                 pre @ Model_call 0 [system_message, plain_message ''user'' ''hi''] # rest \<and>
               [system_message, plain_message ''user'' ''hi''] =
                 apiMessages (replay (messages fresh) pre))"
proof -
  have h: "Model_call 0 [system_message, plain_message ''user'' ''hi'']
     \<in> set (submit (example_env server_error) ''hi'' fresh)"
    by (simp add: example_first_cycle)
  show ?thesis
    using h wire_view_has_no_display_only
      [of "[displayResult 0 ''execute_javascript'' ''1'']" "''Failed to fetch''"
          0 "[system_message, plain_message ''user'' ''hi'']" "example_env server_error" "''hi''" fresh]
    by blast
qed

section \<open>What the evaluated code can reach\<close>

text \<open>
  Claim C7 does not hold for the code. The function that \<^verbatim>\<open>execute_javascript\<close> builds
  takes the injected values as parameters, and that is all the isolation there is: the names
  \<^verbatim>\<open>document\<close> and \<^verbatim>\<open>window\<close> are not among the parameters, so in a page they resolve to
  the page's own globals, while \<^verbatim>\<open>Math\<close> resolves to the injected value.
\<close>

theorem sandbox_leaves_page_globals_reachable:
  "resolve_identifier browser_page ''document'' = Host_global \<and>
   resolve_identifier browser_page ''window'' = Host_global \<and>
   resolve_identifier browser_page ''Math'' = Sandbox_value"
  by (simp add: resolve_identifier_def sandboxGlobals_def browser_page_def)

section \<open>The search tool without configuration\<close>

text \<open>
  Claim C9, as stated, fails when the parsed arguments are null: the parameter pattern
  \<^verbatim>\<open>{ query }\<close> cannot destructure null, so the handler rejects with a TypeError before it
  looks at the configuration, whether or not a key is missing. (The dispatch turns that
  rejection into a "Tool execution failed" result.)
\<close>

theorem google_search_null_counterexample:
  "falsy (google_cse_key (example_env server_error)) \<and>
   snd (google_search (example_env server_error) (0, 0) JNull) \<noteq> Inr config_required"
  by (simp add: google_search_def example_env_def falsy_def)

text \<open>
  Claim C9, amended: when \<^verbatim>\<open>google_search\<close> is invoked with arguments other than null
  while the API key or the search-engine id is missing (undefined or empty), it makes no
  request and resolves to the configuration-required payload, whose text is
  \<^verbatim>\<open>{"error":"...","configRequired":true}\<close>.
\<close>

theorem google_search_config_required:
  assumes "falsy (google_cse_key E) \<or> falsy (google_cse_cx E)"
    and "args \<noteq> JNull"
  shows "google_search E at args = ([], Inr config_required) \<and>
         config_required =
           ''{\"error\":\"Google Search API Key or CX ID is missing. Please configure them in the sidebar.\",\"configRequired\":true}''"
  using assms by (simp add: google_search_def Let_def config_required_text)

theorem google_search_config_required_witness:
  "(falsy (google_cse_key (example_env server_error)) \<or> falsy (google_cse_cx (example_env server_error))) \<and>
   JObj [(''query'', JStr ''tea'')] \<noteq> JNull \<and>
   google_search (example_env server_error) (0, 1) (JObj [(''query'', JStr ''tea'')]) = ([], Inr config_required) \<and>
   config_required =
     ''{\"error\":\"Google Search API Key or CX ID is missing. Please configure them in the sidebar.\",\"configRequired\":true}''"
proof -
  have h1: "falsy (google_cse_key (example_env server_error)) \<or> falsy (google_cse_cx (example_env server_error))"
    by (simp add: example_env_def falsy_def)
  have h2: "JObj [(''query'', JStr ''tea'')] \<noteq> JNull"
    by simp
  show ?thesis
    using h1 h2 google_search_config_required [OF h1 h2, of "(0, 1)"] by simp
qed

end
